theory Spec2Isabelle
  imports Complex_Main "HOL-Library.Log_Nat"
begin

section \<open>JavaScript values\<close>

text \<open>
  The frontend of paper-planes is JavaScript (React). Strings are modelled as
  \<^typ>\<open>string\<close>, a list of 8-bit characters read as code units below 256. A finite
  Number is the rational it denotes exactly; \<open>NaN\<close> is a value of its own. Objects are
  association lists in insertion order, looked up with \<^const>\<open>map_of\<close>.
\<close>

datatype jsval =
    JUndefined
  | JNull
  | JBool bool
  | JNum rat
  | JNaN
  | JStr string
  | JArr "jsval list"
  | JObj "(string \<times> jsval) list"

datatype js_error = Error jsval | TypeError | SyntaxError

text \<open>ToBoolean: what \<open>v ? a : b\<close>, \<open>v && a\<close>, \<open>v || a\<close> and \<open>!v\<close> test.\<close>

fun truthy :: "jsval \<Rightarrow> bool" where
  "truthy JUndefined = False"
| "truthy JNull = False"
| "truthy (JBool b) = b"
| "truthy (JNum r) = (r \<noteq> 0)"
| "truthy JNaN = False"
| "truthy (JStr s) = (s \<noteq> [])"
| "truthy (JArr xs) = True"
| "truthy (JObj kvs) = True"

text \<open>
  Reading a data property \<open>v.k\<close>: a TypeError on \<open>null\<close> and \<open>undefined\<close>,
  \<open>undefined\<close> for a key the value does not carry. Members inherited from prototypes
  are not represented; the source reads none through this function.
\<close>

fun get_prop :: "jsval \<Rightarrow> string \<Rightarrow> js_error + jsval" where
  "get_prop JUndefined k = Inl TypeError"
| "get_prop JNull k = Inl TypeError"
| "get_prop (JObj kvs) k = Inr (case map_of kvs k of None \<Rightarrow> JUndefined | Some v \<Rightarrow> v)"
| "get_prop v k = Inr JUndefined"

text \<open>Array indexing \<open>xs[i]\<close>: \<open>undefined\<close> (here \<open>None\<close>) out of range, never an exception.\<close>

definition js_index :: "'a list \<Rightarrow> nat \<Rightarrow> 'a option" where
  "js_index xs i = (if i < length xs then Some (xs ! i) else None)"

text \<open>A string-valued slot of a template literal: \<open>undefined\<close> prints as its name.\<close>

definition tmpl :: "string option \<Rightarrow> string" where
  "tmpl v = (case v of None \<Rightarrow> ''undefined'' | Some s \<Rightarrow> s)"

text \<open>
  Number-to-string conversion of an integer, as a template literal or a JSX child
  prints it: the decimal numeral, with a minus sign below zero (the numeral is what
  JavaScript prints for magnitudes below \<open>10^21\<close>).
\<close>

definition digit_char :: "nat \<Rightarrow> char" where
  "digit_char d = ''0123456789'' ! d"

fun show_nat :: "nat \<Rightarrow> string" where
  "show_nat n = (if n < 10 then [digit_char n] else show_nat (n div 10) @ [digit_char (n mod 10)])"

declare show_nat.simps [simp del]

definition show_int :: "int \<Rightarrow> string" where
  "show_int i = (if i < 0 then CHR ''-'' # show_nat (nat (- i)) else show_nat (nat i))"

section \<open>formatAuthors (ResultList, both versions, and PaperList)\<close>

text \<open>
  The three copies of \<open>formatAuthors\<close> are the same text. The argument is an array of
  strings, or \<open>null\<close>/\<open>undefined\<close> (\<open>None\<close>); the result is a string, or \<open>None\<close> where
  the JavaScript would return \<open>undefined\<close>.
\<close>

definition formatAuthors :: "string list option \<Rightarrow> string option" where
  "formatAuthors authors =
     (case authors of
        None \<Rightarrow> Some ''Unknown Authors''
      | Some xs \<Rightarrow>
          if length xs = 0 then Some ''Unknown Authors''
          else if length xs = 1 then js_index xs 0
          else if length xs = 2 then Some (tmpl (js_index xs 0) @ '' and '' @ tmpl (js_index xs 1))
          else Some (tmpl (js_index xs 0) @ '' et al.''))"

section \<open>SearchForm\<close>

text \<open>The filter state; \<open>keywords_f\<close> is the field \<open>keywords\<close>.\<close>

record filters =
  year_min :: string
  year_max :: string
  authors :: "string list"
  keywords_f :: "string list"
  conference :: string
  journal :: string

definition initial_filters :: filters where
  "initial_filters =
     \<lparr>year_min = [], year_max = [], authors = [], keywords_f = [], conference = [], journal = []\<rparr>"

text \<open>
  The handlers test the \<open>filters\<close> of the render they were created in and pass React an
  updater of the pending state \<open>prev\<close>. Each function below takes both and returns the
  new pending state.
\<close>

definition addAuthorFilter :: "filters \<Rightarrow> string \<Rightarrow> filters \<Rightarrow> filters" where
  "addAuthorFilter fs author prev =
     (if author \<noteq> [] \<and> author \<notin> set (authors fs)
      then prev\<lparr>authors := authors prev @ [author]\<rparr> else prev)"

definition removeAuthorFilter :: "string \<Rightarrow> filters \<Rightarrow> filters" where
  "removeAuthorFilter author prev = prev\<lparr>authors := filter (\<lambda>a. a \<noteq> author) (authors prev)\<rparr>"

definition addKeywordFilter :: "filters \<Rightarrow> string \<Rightarrow> filters \<Rightarrow> filters" where
  "addKeywordFilter fs keyword prev =
     (if keyword \<noteq> [] \<and> keyword \<notin> set (keywords_f fs)
      then prev\<lparr>keywords_f := keywords_f prev @ [keyword]\<rparr> else prev)"

definition removeKeywordFilter :: "string \<Rightarrow> filters \<Rightarrow> filters" where
  "removeKeywordFilter keyword prev = prev\<lparr>keywords_f := filter (\<lambda>k. k \<noteq> keyword) (keywords_f prev)\<rparr>"

definition resetFilters :: filters where
  "resetFilters = initial_filters"

text \<open>
  \<open>handleFilterChange(name, value)\<close> stores under a computed key. The form calls it from
  four text inputs only, with these names.
\<close>

datatype filter_input = Year_min | Year_max | Conference | Journal

fun handleFilterChange :: "filter_input \<Rightarrow> string \<Rightarrow> filters \<Rightarrow> filters" where
  "handleFilterChange Year_min v prev = prev\<lparr>year_min := v\<rparr>"
| "handleFilterChange Year_max v prev = prev\<lparr>year_max := v\<rparr>"
| "handleFilterChange Conference v prev = prev\<lparr>conference := v\<rparr>"
| "handleFilterChange Journal v prev = prev\<lparr>journal := v\<rparr>"

text \<open>
  The events of the form that touch the filter state. React commits the update of one
  event before the next handler runs, so each handler sees \<open>filters = prev\<close>.
\<close>

datatype form_event =
    FilterChange filter_input string
  | AddAuthor string
  | RemoveAuthor string
  | AddKeyword string
  | RemoveKeyword string
  | ResetFilters

fun form_step :: "filters \<Rightarrow> form_event \<Rightarrow> filters" where
  "form_step fs (FilterChange n v) = handleFilterChange n v fs"
| "form_step fs (AddAuthor a) = addAuthorFilter fs a fs"
| "form_step fs (RemoveAuthor a) = removeAuthorFilter a fs"
| "form_step fs (AddKeyword k) = addKeywordFilter fs k fs"
| "form_step fs (RemoveKeyword k) = removeKeywordFilter k fs"
| "form_step fs ResetFilters = resetFilters"

definition form_run :: "form_event list \<Rightarrow> filters" where
  "form_run evs = foldl form_step initial_filters evs"

section \<open>Strings and numbers of the runtime\<close>

text \<open>
  White space as \<open>trim\<close>, \<open>parseInt\<close> and the class \<open>\s\<close> see it, among the code units
  below 256: tab, line feed, vertical tab, form feed, carriage return, space, no-break
  space.
\<close>

definition is_ws :: "char \<Rightarrow> bool" where
  "is_ws c = ((of_char c :: nat) \<in> {9, 10, 11, 12, 13, 32, 160})"


definition digit_value :: "char \<Rightarrow> nat option" where
  "digit_value c =
     (let n = (of_char c :: nat) in
      if 48 \<le> n \<and> n \<le> 57 then Some (n - 48)
      else if 97 \<le> n \<and> n \<le> 122 then Some (n - 87)
      else if 65 \<le> n \<and> n \<le> 90 then Some (n - 55)
      else None)"

definition is_radix_digit :: "nat \<Rightarrow> char \<Rightarrow> bool" where
  "is_radix_digit R c = (case digit_value c of None \<Rightarrow> False | Some d \<Rightarrow> d < R)"

definition digits_value :: "nat \<Rightarrow> string \<Rightarrow> nat" where
  "digits_value R ds = foldl (\<lambda>acc c. acc * R + the (digit_value c)) 0 ds"

text \<open>
  \<open>parseInt(string)\<close> with no radix: leading white space and one sign are skipped, a
  prefix \<open>0x\<close>/\<open>0X\<close> selects radix 16, the longest run of digits is read, and no digit
  at all gives \<open>NaN\<close>. The result is the integer read (JavaScript rounds it to a double,
  which changes nothing below \<open>2^53\<close>).
\<close>

definition parseInt :: "string \<Rightarrow> jsval" where
  "parseInt str =
     (let s = dropWhile is_ws str;
          neg = (s \<noteq> [] \<and> hd s = CHR ''-'');
          s1 = (if s \<noteq> [] \<and> (hd s = CHR ''+'' \<or> hd s = CHR ''-'') then tl s else s);
          hex = (take 2 s1 = ''0x'' \<or> take 2 s1 = ''0X'');
          R = (if hex then 16 else 10);
          s2 = (if hex then drop 2 s1 else s1);
          z = takeWhile (is_radix_digit R) s2
      in if z = [] then JNaN
         else JNum (of_int (if neg then - int (digits_value R z) else int (digits_value R z))))"

subsection \<open>Double-precision arithmetic\<close>

text \<open>
  JavaScript numbers are IEEE 754 doubles and \<open>*\<close>, \<open>/\<close> round the exact result to the
  nearest double, ties to the even significand. \<open>ilog2 x\<close> is the binary exponent of a
  positive \<open>x\<close>. A double has 53 significant bits and no exponent below \<open>-1074\<close>, so
  the doubles around \<open>x\<close> are the multiples of \<open>2\<close> to the power \<open>ulp_exp x\<close>, and
  \<open>RN x\<close> is the nearest of them. Overflow to \<open>Infinity\<close> is not represented (the
  operands here stay far below it), and \<open>fdiv\<close> is only used with the divisor 1000.
\<close>

definition ilog2 :: "rat \<Rightarrow> int" where
  "ilog2 x = (if 1 \<le> x then bitlen \<lfloor>x\<rfloor> - 1 else - bitlen (\<lceil>1 / x\<rceil> - 1))"

definition round_half_even :: "rat \<Rightarrow> int" where
  "round_half_even q =
     (let f = \<lfloor>q\<rfloor>; d = q - of_int f in
      if d < 1 / 2 then f else if 1 / 2 < d then f + 1 else if even f then f else f + 1)"

definition ulp_exp :: "rat \<Rightarrow> int" where
  "ulp_exp x = max (ilog2 \<bar>x\<bar> - 52) (- 1074)"

definition RN :: "rat \<Rightarrow> rat" where
  "RN x = (if x = 0 then 0
           else of_int (round_half_even (x / 2 powi ulp_exp x)) * 2 powi ulp_exp x)"

definition fmul :: "rat \<Rightarrow> rat \<Rightarrow> rat" where
  "fmul x y = RN (x * y)"

definition fdiv :: "rat \<Rightarrow> rat \<Rightarrow> rat" where
  "fdiv x y = RN (x / y)"

text \<open>\<open>Math.round\<close>: the nearest integer, a tie going up.\<close>

definition Math_round :: "rat \<Rightarrow> int" where
  "Math_round x = \<lfloor>x + 1 / 2\<rfloor>"

text \<open>
  \<open>x.toFixed(2)\<close> for a finite \<open>x\<close> below \<open>10^21\<close> in magnitude: the sign, then the
  integer \<open>n\<close> nearest to \<open>100 |x|\<close> (the larger of two) printed with a point before its
  last two digits.
\<close>

definition toFixed2 :: "rat \<Rightarrow> string" where
  "toFixed2 x =
     (let n = nat \<lfloor>\<bar>x\<bar> * 100 + 1 / 2\<rfloor> in
      (if x < 0 then ''-'' else [])
        @ show_nat (n div 100) @ ''.'' @ [digit_char (n mod 100 div 10), digit_char (n mod 10)])"

section \<open>formatScore (ResultList, both versions)\<close>

definition formatScore :: "rat \<Rightarrow> string" where
  "formatScore score = show_int (Math_round (fmul score 100)) @ ''%''"

section \<open>SearchForm.handleSubmit\<close>


section \<open>services/api.js\<close>

text \<open>\<open>s.includes(sub)\<close>: \<open>sub\<close> occurs in \<open>s\<close> as a contiguous run.\<close>

fun starts_with :: "string \<Rightarrow> string \<Rightarrow> bool" where
  "starts_with s [] = True"
| "starts_with [] (c # sub) = False"
| "starts_with (d # s) (c # sub) = (d = c \<and> starts_with s sub)"

fun includes_str :: "string \<Rightarrow> string \<Rightarrow> bool" where
  "includes_str [] sub = (sub = [])"
| "includes_str (c # s) sub = (starts_with (c # s) sub \<or> includes_str s sub)"

text \<open>
  A fetch \<open>Response\<close> as \<open>handleResponse\<close> reads it: \<open>ok\<close>, \<open>status\<close>, \<open>statusText\<close>, the
  content-type header (\<open>None\<close> for \<open>null\<close>), and what its two body readers settle to:
  \<open>json_body\<close> is the value \<open>response.json()\<close> resolves to, or \<open>None\<close> when it rejects with a
  SyntaxError because the body is not JSON text; \<open>text_body\<close> is what \<open>response.text()\<close>
  resolves to.
\<close>

record response =
  ok :: bool
  status :: nat
  statusText :: string
  content_type :: "string option"
  json_body :: "jsval option"
  text_body :: string

text \<open>The first part of \<open>handleResponse\<close>: the parsed body \<open>data\<close>.\<close>

definition response_data :: "response \<Rightarrow> js_error + jsval" where
  "response_data r =
     (if (case content_type r of None \<Rightarrow> False | Some ct \<Rightarrow> includes_str ct ''application/json'')
      then (case json_body r of None \<Rightarrow> Inl SyntaxError | Some v \<Rightarrow> Inr v)
      else Inr (JStr (text_body r)))"

text \<open>
  \<open>data.detail || data.message || `Error: ${response.status} ${response.statusText}`\<close>:
  each property read raises on \<open>null\<close>, and \<open>||\<close> moves on when its left side is falsy.
\<close>

definition errorMessage :: "response \<Rightarrow> jsval \<Rightarrow> js_error + jsval" where
  "errorMessage r data =
     (case get_prop data ''detail'' of
        Inl e \<Rightarrow> Inl e
      | Inr detail \<Rightarrow>
          if truthy detail then Inr detail
          else (case get_prop data ''message'' of
                  Inl e \<Rightarrow> Inl e
                | Inr message \<Rightarrow>
                    if truthy message then Inr message
                    else Inr (JStr (''Error: '' @ show_nat (status r) @ '' '' @ statusText r))))"

text \<open>
  \<open>handleResponse\<close>: \<open>Inr\<close> is the value the promise resolves to, \<open>Inl\<close> what it rejects
  with; \<open>Error v\<close> is \<open>new Error(v)\<close>, whose message is \<open>v\<close> as a string.
\<close>

definition handleResponse :: "response \<Rightarrow> js_error + jsval" where
  "handleResponse r =
     (case response_data r of
        Inl e \<Rightarrow> Inl e
      | Inr data \<Rightarrow>
          if \<not> ok r then
            (case errorMessage r data of Inl e \<Rightarrow> Inl e | Inr m \<Rightarrow> Inl (Error m))
          else Inr data)"

text \<open>\<open>import.meta.env.VITE_API_BASE_URL || '/api'\<close>, the variable unset being \<open>None\<close>.\<close>

definition API_BASE_URL :: "string option \<Rightarrow> string" where
  "API_BASE_URL env = (case env of None \<Rightarrow> ''/api'' | Some u \<Rightarrow> if u \<noteq> [] then u else ''/api'')"

text \<open>
  What \<open>JSON.stringify\<close> writes, as the value its text denotes: a property whose value is
  \<open>undefined\<close> is left out of an object, \<open>undefined\<close> in an array and \<open>NaN\<close> anywhere
  become \<open>null\<close>.
\<close>

fun json_value :: "jsval \<Rightarrow> jsval"
  and json_elems :: "jsval list \<Rightarrow> jsval list"
  and json_props :: "(string \<times> jsval) list \<Rightarrow> (string \<times> jsval) list" where
  "json_value (JArr xs) = JArr (json_elems xs)"
| "json_value (JObj kvs) = JObj (json_props kvs)"
| "json_value JNaN = JNull"
| "json_value JUndefined = JUndefined"
| "json_value JNull = JNull"
| "json_value (JBool b) = JBool b"
| "json_value (JNum r) = JNum r"
| "json_value (JStr s) = JStr s"
| "json_elems [] = []"
| "json_elems (v # vs) = (if v = JUndefined then JNull else json_value v) # json_elems vs"
| "json_props [] = []"
| "json_props ((k, v) # kvs) =
     (if v = JUndefined then json_props kvs else (k, json_value v) # json_props kvs)"

record http_request =
  req_method :: string
  req_url :: string
  req_headers :: "(string \<times> string) list"
  req_body :: "jsval option"

text \<open>
  The \<open>fetch\<close> call of \<open>api.search(searchRequest)\<close>, for an object \<open>searchRequest\<close>. The
  destructuring takes \<open>useParagraphs\<close> out into the query string; the body is the whole
  \<open>searchRequest\<close> (the rest object \<open>requestParams\<close> is not used).
\<close>

definition search_fetch :: "string option \<Rightarrow> (string \<times> jsval) list \<Rightarrow> http_request" where
  "search_fetch env searchRequest =
     (let useParagraphs = (case map_of searchRequest ''useParagraphs'' of None \<Rightarrow> JUndefined | Some v \<Rightarrow> v);
          queryParam = (if truthy useParagraphs then ''?use_paragraphs=true'' else [])
      in \<lparr>req_method = ''POST'',
          req_url = API_BASE_URL env @ ''/search'' @ queryParam,
          req_headers = [(''Content-Type'', ''application/json'')],
          req_body = Some (json_value (JObj searchRequest))\<rparr>)"

text \<open>
  \<open>api.search\<close>: the request goes to \<open>fetch\<close> (the network, a parameter: \<open>Inl\<close> when the
  promise rejects) and the response to \<open>handleResponse\<close>.
\<close>

definition search :: "string option \<Rightarrow> (http_request \<Rightarrow> js_error + response)
    \<Rightarrow> (string \<times> jsval) list \<Rightarrow> js_error + jsval" where
  "search env fetch searchRequest =
     (case fetch (search_fetch env searchRequest) of
        Inl e \<Rightarrow> Inl e
      | Inr response \<Rightarrow> handleResponse response)"

text \<open>
  The \<open>api\<close> object: its property names in order, each with the HTTP method and the path
  under \<open>API_BASE_URL\<close> its \<open>fetch\<close> goes to (up to the first interpolated argument);
  \<open>getPaperDownloadUrl\<close> builds a string and sends nothing.
\<close>

definition api :: "(string \<times> (string \<times> string) option) list" where
  "api =
     [(''search'', Some (''POST'', ''/search'')),
      (''getFilterOptions'', Some (''GET'', ''/search/filter-options'')),
      (''uploadPaper'', Some (''POST'', ''/papers/upload'')),
      (''listAllPapers'', Some (''GET'', ''/papers?limit='')),
      (''deletePaper'', Some (''DELETE'', ''/papers/'')),
      (''getPaperDownloadUrl'', None)]"

text \<open>
  Calling \<open>api.name(...)\<close>: a TypeError when \<open>api\<close> has no such property (\<open>undefined\<close> is
  not a function), else the request the method sends, if any.
\<close>

definition api_call :: "(string \<times> (string \<times> string) option) list \<Rightarrow> string
    \<Rightarrow> js_error + (string \<times> string) option" where
  "api_call a name = (case map_of a name of None \<Rightarrow> Inl TypeError | Some ep \<Rightarrow> Inr ep)"

section \<open>App.handleSearch\<close>


section \<open>ResultList\<close>

text \<open>
  What a component renders: React elements with their props and children. A prop is a
  string, a number or a click handler; a handler is named by the state update it makes.
\<close>

datatype handler = ToggleExpanded string | StopThenToggleParagraphs string

datatype propval = Str string | Num int | Handler handler

datatype node = Text string | Element string "(string \<times> propval) list" "node list"

text \<open>
  One search result and one paragraph hit, as the component reads them. \<open>None\<close> is a
  \<open>null\<close> or missing property. The fields \<open>authors\<close>, \<open>conference\<close>, \<open>journal\<close>,
  \<open>keywords\<close> of a result carry the prefix \<open>r_\<close>, and \<open>section\<close>, \<open>text\<close>, \<open>context\<close>
  of a paragraph the prefix \<open>p_\<close>.
\<close>

record paragraph_hit =
  p_section :: "string option"
  paragraph_index :: int
  p_text :: "string option"
  score :: rat
  p_context :: "string option"

record result =
  paper_id :: string
  title :: string
  r_authors :: "string list option"
  publication_year :: "int option"
  r_conference :: "string option"
  r_journal :: "string option"
  abstract :: "string option"
  r_keywords :: "string list option"
  similarity_score :: rat
  matching_paragraphs :: "paragraph_hit list option"

record props =
  results :: "result list"
  totalCount :: int
  query :: string
  executionTime :: rat

text \<open>
  A string-valued JSX child \<open>{s}\<close>: \<open>null\<close>, \<open>undefined\<close> and the empty string render
  nothing.
\<close>

definition child :: "string option \<Rightarrow> node list" where
  "child s = (case s of None \<Rightarrow> [] | Some t \<Rightarrow> if t = [] then [] else [Text t])"

text \<open>The double quote, and the bullet of the byline, U+2022, in UTF-8.\<close>

definition dquote :: string where
  "dquote = [CHR 0x22]"


definition bullet :: string where
  "bullet = [CHR 0xE2, CHR 0x80, CHR 0xA2]"

text \<open>
  \<open>{v && ` \<bullet> ${v}`}\<close> for a string or \<open>null\<close>: a falsy left side is the value of
  \<open>&&\<close>, and \<open>null\<close> and \<open>''\<close> render nothing.
\<close>

definition and_bullet :: "string option \<Rightarrow> node list" where
  "and_bullet v =
     (case v of None \<Rightarrow> [] | Some s \<Rightarrow> if s = [] then [] else [Text ('' '' @ bullet @ '' '' @ s)])"

text \<open>The same for the year, a number or \<open>null\<close>: a zero is the value of \<open>&&\<close> and prints.\<close>

definition and_bullet_year :: "int option \<Rightarrow> node list" where
  "and_bullet_year v =
     (case v of None \<Rightarrow> []
      | Some y \<Rightarrow> if y = 0 then [Text ''0''] else [Text ('' '' @ bullet @ '' '' @ show_int y)])"

definition no_results :: "string \<Rightarrow> node" where
  "no_results q =
     Element ''div'' [(''className'', Str ''bg-white shadow-md rounded-lg p-6 text-center'')]
       [Element ''p'' [(''className'', Str ''text-gray-600'')]
          [Text (''No results found for '' @ dquote), Text q, Text dquote],
        Element ''p'' [(''className'', Str ''text-sm text-gray-500 mt-2'')]
          [Text ''Try adjusting your search terms or filters'']]"

definition count_header :: "props \<Rightarrow> node" where
  "count_header p =
     Element ''div'' [(''className'', Str ''mb-4 text-sm text-gray-600'')]
       [Text ''Found '', Text (show_int (totalCount p)), Text '' '',
        Text (if totalCount p = 1 then ''result'' else ''results''),
        Text ('' for '' @ dquote), Text (query p), Text (dquote @ '' (''),
        Text (toFixed2 (fdiv (executionTime p) 1000)), Text '' seconds)'']"

definition card_header :: "result \<Rightarrow> node" where
  "card_header r =
     Element ''div''
       [(''className'', Str ''flex items-center justify-between p-4 cursor-pointer''),
        (''onClick'', Handler (ToggleExpanded (paper_id r)))]
       [Element ''div'' [(''className'', Str ''flex-1'')]
          [Element ''h3'' [(''className'', Str ''text-lg font-medium text-gray-900'')]
             [Text (title r)],
           Element ''p'' [(''className'', Str ''text-sm text-gray-600 mt-1'')]
             (child (formatAuthors (r_authors r))
                @ and_bullet_year (publication_year r)
                @ and_bullet (r_conference r)
                @ and_bullet (r_journal r))],
        Element ''div'' [(''className'', Str ''ml-4 flex flex-col items-end'')]
          [Element ''span'' [(''className'', Str ''text-blue-600 font-semibold'')]
             [Text (formatScore (similarity_score r))],
           Element ''span'' [(''className'', Str ''text-sm text-gray-500'')] [Text ''match'']]]"

text \<open>The abstract section, given the children of its paragraph.\<close>

definition abstract_section :: "node list \<Rightarrow> node" where
  "abstract_section body =
     Element ''div'' [(''className'', Str ''mb-3'')]
       [Element ''h4'' [(''className'', Str ''text-sm font-semibold text-gray-700 mb-1'')]
          [Text ''Abstract''],
        Element ''p'' [(''className'', Str ''text-sm text-gray-600'')] body]"

definition keyword_tag :: "string \<Rightarrow> node" where
  "keyword_tag keyword =
     Element ''span''
       [(''key'', Str keyword),
        (''className'', Str ''bg-green-100 text-green-800 text-xs px-2 py-1 rounded-full'')]
       (child (Some keyword))"

definition keywords_section :: "result \<Rightarrow> node list" where
  "keywords_section r =
     (case r_keywords r of
        None \<Rightarrow> []
      | Some ks \<Rightarrow>
          if length ks > 0 then
            [Element ''div'' [(''className'', Str ''mb-3'')]
               [Element ''h4'' [(''className'', Str ''text-sm font-semibold text-gray-700 mb-1'')]
                  [Text ''Keywords''],
                Element ''div'' [(''className'', Str ''flex flex-wrap gap-1'')]
                  (map keyword_tag ks)]]
          else [])"

definition download_section :: "result \<Rightarrow> node" where
  "download_section r =
     Element ''div'' [(''className'', Str ''flex justify-end mt-3'')]
       [Element ''a''
          [(''href'', Str (''/api/papers/download/'' @ paper_id r)),
           (''target'', Str ''_blank''),
           (''rel'', Str ''noopener noreferrer''),
           (''className'', Str ''px-3 py-1 bg-blue-600 text-white text-sm rounded hover:bg-blue-700 transition-colors'')]
          [Text ''Download PDF'']]"

subsection \<open>The plain version (src/unnamed/part_001)\<close>

definition detail_plain :: "result \<Rightarrow> node" where
  "detail_plain r =
     Element ''div'' [(''className'', Str ''p-4 border-t bg-gray-50'')]
       ((case abstract r of
           None \<Rightarrow> []
         | Some a \<Rightarrow> if a = [] then [] else [abstract_section (child (Some a))])
        @ keywords_section r
        @ [download_section r])"

definition card_plain :: "string option \<Rightarrow> result \<Rightarrow> node" where
  "card_plain expandedId r =
     Element ''div''
       [(''key'', Str (paper_id r)),
        (''className'', Str ''border rounded-lg overflow-hidden hover:shadow-md transition-shadow'')]
       (card_header r # (if expandedId = Some (paper_id r) then [detail_plain r] else []))"

definition ResultList_plain :: "props \<Rightarrow> string option \<Rightarrow> node" where
  "ResultList_plain p expandedId =
     (if length (results p) = 0 then no_results (query p)
      else Element ''div'' [(''className'', Str ''bg-white shadow-md rounded-lg p-6'')]
             [count_header p,
              Element ''div'' [(''className'', Str ''space-y-4'')]
                (map (card_plain expandedId) (results p))])"

text \<open>\<open>toggleExpanded\<close>, on the state \<open>expandedId\<close> (\<open>None\<close> is \<open>null\<close>).\<close>

definition toggleExpanded :: "string option \<Rightarrow> string \<Rightarrow> string option" where
  "toggleExpanded expandedId i = (if expandedId = Some i then None else Some i)"

subsection \<open>The extended version (src/unnamed/part_000)\<close>

text \<open>
  \<open>query.split(/\s+/)\<close>: the pieces between maximal runs of white space; a string that
  starts or ends with white space has an empty first or last piece.
\<close>

fun split_ws :: "string \<Rightarrow> string list" where
  "split_ws [] = [[]]"
| "split_ws (c # s) =
     (if is_ws c then (if s \<noteq> [] \<and> is_ws (hd s) then split_ws s else [] # split_ws s)
      else (case split_ws s of [] \<Rightarrow> [[c]] | w # ws \<Rightarrow> (c # w) # ws))"

fun join_bar :: "string list \<Rightarrow> string" where
  "join_bar [] = []"
| "join_bar [t] = t"
| "join_bar (t # u # ts) = t @ ''|'' @ join_bar (u # ts)"

text \<open>\<open>toLowerCase\<close> on code units below 256: A to Z, and the capitals of Latin-1.\<close>

definition lower_char :: "char \<Rightarrow> char" where
  "lower_char c =
     (let n = (of_char c :: nat) in
      if (65 \<le> n \<and> n \<le> 90) \<or> (192 \<le> n \<and> n \<le> 222 \<and> n \<noteq> 215) then char_of (n + 32) else c)"

definition toLowerCase :: "string \<Rightarrow> string" where
  "toLowerCase s = map lower_char s"

text \<open>
  The regular expressions of the runtime are a parameter: \<open>rx src t\<close> is what
  \<open>t.split(new RegExp(src, 'gi'))\<close> evaluates to: \<open>None\<close> when the constructor rejects
  \<open>src\<close> with a SyntaxError, else the pieces, where a capture group that took no part in
  a match gives \<open>undefined\<close> (\<open>None\<close>).
\<close>

type_synonym regex_split = "string \<Rightarrow> string \<Rightarrow> string option list option"

definition map_err :: "('a \<Rightarrow> js_error + 'b) \<Rightarrow> 'a list \<Rightarrow> js_error + 'b list" where
  "map_err f xs =
     foldr (\<lambda>x acc. case f x of Inl e \<Rightarrow> Inl e
                     | Inr y \<Rightarrow> (case acc of Inl e \<Rightarrow> Inl e | Inr ys \<Rightarrow> Inr (y # ys)))
       xs (Inr [])"

definition highlight_span :: "string list \<Rightarrow> string option \<times> nat \<Rightarrow> js_error + node" where
  "highlight_span queryTerms pr =
     (case fst pr of
        None \<Rightarrow> Inl TypeError
      | Some part \<Rightarrow>
          Inr (if list_ex (\<lambda>term. toLowerCase part = toLowerCase term) queryTerms
               then Element ''span'' [(''key'', Num (int (snd pr))), (''className'', Str ''bg-yellow-200'')]
                      (child (Some part))
               else Element ''span'' [(''key'', Num (int (snd pr)))] (child (Some part))))"

text \<open>
  \<open>highlightText(text, query)\<close> as the JSX child it is used as: the text itself when the
  query or the text is falsy or no query term has more than two characters, else one
  \<open>span\<close> per piece of the split.
\<close>

definition highlightText :: "regex_split \<Rightarrow> string option \<Rightarrow> string \<Rightarrow> js_error + node list" where
  "highlightText rx txt q =
     (if q = [] \<or> txt = None \<or> txt = Some [] then Inr (child txt)
      else
        let queryTerms = filter (\<lambda>term. length term > 2) (split_ws q) in
        if length queryTerms = 0 then Inr (child txt)
        else (case rx (''('' @ join_bar queryTerms @ '')'') (the txt) of
                None \<Rightarrow> Inl SyntaxError
              | Some parts \<Rightarrow> map_err (highlight_span queryTerms) (zip parts [0 ..< length parts])))"

definition hit_class :: string where
  "hit_class = ''bg-white p-3 border border-blue-100 rounded-md''"

definition paragraph_card :: "regex_split \<Rightarrow> string \<Rightarrow> paragraph_hit \<times> nat \<Rightarrow> js_error + node" where
  "paragraph_card rx q pr =
     (let paragraph = fst pr; idx = snd pr in
      case highlightText rx (p_text paragraph) q of
        Inl e \<Rightarrow> Inl e
      | Inr body \<Rightarrow>
          Inr (Element ''div'' [(''key'', Num (int idx)), (''className'', Str hit_class)]
                 [Element ''div'' [(''className'', Str ''flex justify-between items-start mb-1'')]
                    [Element ''span'' [(''className'', Str ''text-xs text-blue-600 font-medium'')]
                       [Text (case p_section paragraph of
                                None \<Rightarrow> ''Section''
                              | Some s \<Rightarrow> if s = [] then ''Section'' else s),
                        Text '' - Paragraph '',
                        Text (show_int (paragraph_index paragraph + 1))],
                     Element ''span''
                       [(''className'', Str ''text-xs bg-blue-100 text-blue-800 px-2 py-0.5 rounded-full'')]
                       [Text (formatScore (score paragraph))]],
                  Element ''p'' [(''className'', Str ''text-sm text-gray-700'')] body]))"

definition chevron :: "string \<Rightarrow> node" where
  "chevron d =
     Element ''svg''
       [(''xmlns'', Str ''http://www.w3.org/2000/svg''), (''className'', Str ''h-4 w-4 mr-1''),
        (''fill'', Str ''none''), (''viewBox'', Str ''0 0 24 24''), (''stroke'', Str ''currentColor'')]
       [Element ''path''
          [(''strokeLinecap'', Str ''round''), (''strokeLinejoin'', Str ''round''),
           (''strokeWidth'', Num 2), (''d'', Str d)] []]"

text \<open>The Show/Hide More button of a result with \<open>m\<close> matching paragraphs.\<close>

definition more_button :: "bool \<Rightarrow> string \<Rightarrow> nat \<Rightarrow> node" where
  "more_button expanded pid m =
     Element ''button''
       [(''className'', Str ''text-sm text-blue-600 mt-1 hover:underline flex items-center''),
        (''onClick'', Handler (StopThenToggleParagraphs pid))]
       (if expanded then [chevron ''M5 15l7-7 7 7'', Text ''Show fewer paragraphs'']
        else [chevron ''M19 9l-7 7-7-7'', Text ''Show '', Text (show_int (int m - 2)),
              Text '' more matching paragraphs''])"

text \<open>
  The block under the comment \<open>Matching Paragraphs\<close>: nothing unless \<open>useParagraphs\<close> and
  a non-empty \<open>matching_paragraphs\<close>; \<open>slice(0, 2)\<close> is \<^term>\<open>take 2\<close>.
\<close>

definition matching_section :: "regex_split \<Rightarrow> bool \<Rightarrow> (string \<Rightarrow> bool) \<Rightarrow> string \<Rightarrow> result
    \<Rightarrow> js_error + node list" where
  "matching_section rx useParagraphs expandedParagraphs q r =
     (case matching_paragraphs r of
        None \<Rightarrow> Inr []
      | Some mp \<Rightarrow>
          if useParagraphs \<and> length mp > 0 then
            (let shown = (if expandedParagraphs (paper_id r) then mp else take 2 mp) in
             case map_err (paragraph_card rx q) (zip shown [0 ..< length shown]) of
               Inl e \<Rightarrow> Inl e
             | Inr cards \<Rightarrow>
                 Inr [Element ''div'' [(''className'', Str ''mb-3'')]
                        [Element ''h4'' [(''className'', Str ''text-sm font-semibold text-gray-700 mb-1'')]
                           [Text ''Matching Paragraphs''],
                         Element ''div'' [(''className'', Str ''space-y-3 mt-2'')]
                           (cards @ (if length mp > 2
                                     then [more_button (expandedParagraphs (paper_id r)) (paper_id r) (length mp)]
                                     else []))]])
          else Inr [])"

text \<open>The block under the comment \<open>Paragraph Context\<close>.\<close>

definition context_section :: "bool \<Rightarrow> (string \<Rightarrow> bool) \<Rightarrow> result \<Rightarrow> node list" where
  "context_section useParagraphs expandedParagraphs r =
     (case matching_paragraphs r of
        None \<Rightarrow> []
      | Some mp \<Rightarrow>
          if useParagraphs \<and> expandedParagraphs (paper_id r)
             \<and> list_ex (\<lambda>p. (case p_context p of None \<Rightarrow> False | Some c \<Rightarrow> c \<noteq> [])
                             \<and> p_context p \<noteq> p_text p) mp
          then
            [Element ''div'' [(''className'', Str ''mb-3'')]
               [Element ''div'' [(''className'', Str ''flex items-center mb-1'')]
                  [Element ''h4'' [(''className'', Str ''text-sm font-semibold text-gray-700'')]
                     [Text ''Paragraph Context''],
                   Element ''span'' [(''className'', Str ''ml-2 text-xs text-gray-500'')]
                     [Text ''(Surrounding paragraphs for better understanding)'']],
                Element ''div''
                  [(''className'', Str ''bg-gray-100 p-3 rounded-md text-sm text-gray-700 whitespace-pre-wrap'')]
                  (child (case js_index mp 0 of None \<Rightarrow> None | Some p0 \<Rightarrow> p_context p0))]]
          else [])"

definition detail_ext :: "regex_split \<Rightarrow> bool \<Rightarrow> (string \<Rightarrow> bool) \<Rightarrow> string \<Rightarrow> result
    \<Rightarrow> js_error + node" where
  "detail_ext rx useParagraphs expandedParagraphs q r =
     (case (case abstract r of
              None \<Rightarrow> Inr []
            | Some a \<Rightarrow>
                if a = [] then Inr []
                else (case (if useParagraphs then highlightText rx (Some a) q else Inr (child (Some a))) of
                        Inl e \<Rightarrow> Inl e
                      | Inr body \<Rightarrow> Inr [abstract_section body])) of
        Inl e \<Rightarrow> Inl e
      | Inr abstr \<Rightarrow>
          (case matching_section rx useParagraphs expandedParagraphs q r of
             Inl e \<Rightarrow> Inl e
           | Inr matching \<Rightarrow>
               Inr (Element ''div'' [(''className'', Str ''p-4 border-t bg-gray-50'')]
                      (abstr @ keywords_section r @ matching
                         @ context_section useParagraphs expandedParagraphs r
                         @ [download_section r]))))"

definition card_ext :: "regex_split \<Rightarrow> bool \<Rightarrow> string option \<Rightarrow> (string \<Rightarrow> bool) \<Rightarrow> string
    \<Rightarrow> result \<Rightarrow> js_error + node" where
  "card_ext rx useParagraphs expandedId expandedParagraphs q r =
     (case (if expandedId = Some (paper_id r)
            then (case detail_ext rx useParagraphs expandedParagraphs q r of
                    Inl e \<Rightarrow> Inl e | Inr d \<Rightarrow> Inr [d])
            else Inr []) of
        Inl e \<Rightarrow> Inl e
      | Inr detail \<Rightarrow>
          Inr (Element ''div''
                 [(''key'', Str (paper_id r)),
                  (''className'', Str ''border rounded-lg overflow-hidden hover:shadow-md transition-shadow'')]
                 (card_header r # detail)))"

text \<open>
  The component: \<open>useParagraphs\<close> is \<open>None\<close> when the prop is absent and then takes its
  default \<open>false\<close>. \<open>Inl\<close> is a render that throws.
\<close>

definition ResultList_ext :: "regex_split \<Rightarrow> props \<Rightarrow> bool option \<Rightarrow> string option
    \<Rightarrow> (string \<Rightarrow> bool) \<Rightarrow> js_error + node" where
  "ResultList_ext rx p useParagraphs_prop expandedId expandedParagraphs =
     (let useParagraphs = (case useParagraphs_prop of None \<Rightarrow> False | Some b \<Rightarrow> b) in
      if length (results p) = 0 then Inr (no_results (query p))
      else (case map_err (card_ext rx useParagraphs expandedId expandedParagraphs (query p)) (results p) of
              Inl e \<Rightarrow> Inl e
            | Inr cards \<Rightarrow>
                Inr (Element ''div'' [(''className'', Str ''bg-white shadow-md rounded-lg p-6'')]
                       [count_header p, Element ''div'' [(''className'', Str ''space-y-4'')] cards])))"

definition toggleParagraphs :: "(string \<Rightarrow> bool) \<Rightarrow> string \<Rightarrow> (string \<Rightarrow> bool)" where
  "toggleParagraphs expandedParagraphs paperId =
     expandedParagraphs (paperId := \<not> expandedParagraphs paperId)"

subsection \<open>Reading a rendered tree\<close>

fun find_nodes :: "(node \<Rightarrow> bool) \<Rightarrow> node \<Rightarrow> node list" where
  "find_nodes P (Text t) = (if P (Text t) then [Text t] else [])"
| "find_nodes P (Element tag ps cs) =
     (if P (Element tag ps cs) then [Element tag ps cs] else []) @ concat (map (find_nodes P) cs)"


fun is_paragraph_card :: "node \<Rightarrow> bool" where
  "is_paragraph_card (Text t) = False"
| "is_paragraph_card (Element tag ps cs) =
     (tag = ''div'' \<and> map_of ps ''className'' = Some (Str hit_class))"

fun is_button :: "node \<Rightarrow> bool" where
  "is_button (Text t) = False"
| "is_button (Element tag ps cs) = (tag = ''button'')"

section \<open>IndexManagement\<close>

text \<open>
  The index status as the component reads it: \<open>backup_timestamp\<close> is
  \<open>backup_info.timestamp\<close>, \<open>None\<close> without \<open>backup_info\<close>.
\<close>

record index_status =
  total_documents :: nat
  last_updated :: "string option"
  using_hybrid :: "bool option"
  has_backup :: bool
  backup_timestamp :: "string option"

record index_ui =
  isRebuildingIndex :: bool
  isRollingBack :: bool
  showRebuildConfirmation :: bool
  showRollbackConfirmation :: bool
  indexStatus :: "index_status option"
  useParagraphs :: bool
  isLoadingStatus :: bool

definition initial_ui :: index_ui where
  "initial_ui =
     \<lparr>isRebuildingIndex = False, isRollingBack = False, showRebuildConfirmation = False,
      showRollbackConfirmation = False, indexStatus = None, useParagraphs = False,
      isLoadingStatus = False\<rparr>"

text \<open>The \<open>disabled\<close> props of the two buttons; \<open>indexStatus?.has_backup\<close> is falsy without a status.\<close>

definition rebuild_disabled :: "index_ui \<Rightarrow> bool" where
  "rebuild_disabled s = (isRebuildingIndex s \<or> isRollingBack s)"

definition rollback_disabled :: "index_ui \<Rightarrow> bool" where
  "rollback_disabled s =
     (isRebuildingIndex s \<or> isRollingBack s
      \<or> \<not> (case indexStatus s of None \<Rightarrow> False | Some st \<Rightarrow> has_backup st))"

text \<open>
  What the component does to the outside: a call of an \<open>api\<close> method that exists, with
  the request it sends, and the two callbacks with their message.
\<close>

datatype ui_effect = Call string "(string \<times> string) option" | OnSuccess string | OnError string

text \<open>The message of the TypeError for a missing method, in V8's words.\<close>

definition not_a_function :: "string \<Rightarrow> string" where
  "not_a_function name = ''api.'' @ name @ '' is not a function''"

text \<open>
  Each async handler is split where it awaits: the part that runs at once, then one of
  two events when the promise settles. When \<open>api\<close> lacks the method the call throws at
  once and \<open>catch\<close> and \<open>finally\<close> run in the same turn.
\<close>

definition fetchIndexStatus :: "(string \<times> (string \<times> string) option) list \<Rightarrow> index_ui
    \<Rightarrow> index_ui \<times> ui_effect list" where
  "fetchIndexStatus a s =
     (case api_call a ''getIndexStatus'' of
        Inl e \<Rightarrow> (s\<lparr>isLoadingStatus := False\<rparr>,
                  [OnError (''Error fetching index status: '' @ not_a_function ''getIndexStatus'')])
      | Inr ep \<Rightarrow> (s\<lparr>isLoadingStatus := True\<rparr>, [Call ''getIndexStatus'' ep]))"

definition confirmRebuild :: "(string \<times> (string \<times> string) option) list \<Rightarrow> index_ui
    \<Rightarrow> index_ui \<times> ui_effect list" where
  "confirmRebuild a s =
     (case api_call a ''rebuildIndexes'' of
        Inl e \<Rightarrow> (s\<lparr>isRebuildingIndex := False, showRebuildConfirmation := False\<rparr>,
                  [OnError (''Error rebuilding index: '' @ not_a_function ''rebuildIndexes'')])
      | Inr ep \<Rightarrow> (s\<lparr>isRebuildingIndex := True\<rparr>, [Call ''rebuildIndexes'' ep]))"

definition confirmRollback :: "(string \<times> (string \<times> string) option) list \<Rightarrow> index_ui
    \<Rightarrow> index_ui \<times> ui_effect list" where
  "confirmRollback a s =
     (case api_call a ''rollbackIndex'' of
        Inl e \<Rightarrow> (s\<lparr>isRollingBack := False, showRollbackConfirmation := False\<rparr>,
                  [OnError (''Error rolling back index: '' @ not_a_function ''rollbackIndex'')])
      | Inr ep \<Rightarrow> (s\<lparr>isRollingBack := True\<rparr>, [Call ''rollbackIndex'' ep]))"

text \<open>
  The events: the mount effect, clicks on the buttons (a button that is not rendered or
  is disabled does not fire), the checkbox of the rebuild dialog, and the settling of
  the three requests. A resolved rebuild or rollback carries \<open>result.message || ''\<close>, a
  rejected one \<open>err.message\<close>.
\<close>

datatype index_event =
    Mount
  | ClickRefresh
  | StatusResolved index_status
  | StatusRejected string
  | ClickRebuild
  | ClickRollback
  | ClickCancelRebuild
  | ClickCancelRollback
  | SetUseParagraphs bool
  | ClickConfirmRebuild
  | RebuildResolved string
  | RebuildRejected string
  | ClickConfirmRollback
  | RollbackResolved string
  | RollbackRejected string

fun index_step :: "(string \<times> (string \<times> string) option) list \<Rightarrow> index_ui \<Rightarrow> index_event
    \<Rightarrow> index_ui \<times> ui_effect list" where
  "index_step a s Mount = fetchIndexStatus a s"
| "index_step a s ClickRefresh = (if isLoadingStatus s then (s, []) else fetchIndexStatus a s)"
| "index_step a s (StatusResolved st) = (s\<lparr>indexStatus := Some st, isLoadingStatus := False\<rparr>, [])"
| "index_step a s (StatusRejected msg) =
     (s\<lparr>isLoadingStatus := False\<rparr>, [OnError (''Error fetching index status: '' @ msg)])"
| "index_step a s ClickRebuild =
     (if rebuild_disabled s then (s, []) else (s\<lparr>showRebuildConfirmation := True\<rparr>, []))"
| "index_step a s ClickRollback =
     (if rollback_disabled s then (s, []) else (s\<lparr>showRollbackConfirmation := True\<rparr>, []))"
| "index_step a s ClickCancelRebuild =
     (if showRebuildConfirmation s \<and> \<not> isRebuildingIndex s
      then (s\<lparr>showRebuildConfirmation := False\<rparr>, []) else (s, []))"
| "index_step a s ClickCancelRollback =
     (if showRollbackConfirmation s \<and> \<not> isRollingBack s
      then (s\<lparr>showRollbackConfirmation := False\<rparr>, []) else (s, []))"
| "index_step a s (SetUseParagraphs b) =
     (if showRebuildConfirmation s then (s\<lparr>useParagraphs := b\<rparr>, []) else (s, []))"
| "index_step a s ClickConfirmRebuild =
     (if showRebuildConfirmation s \<and> \<not> isRebuildingIndex s then confirmRebuild a s else (s, []))"
| "index_step a s (RebuildResolved msg) =
     (let (s1, effs) = fetchIndexStatus a s in
      (s1\<lparr>isRebuildingIndex := False, showRebuildConfirmation := False\<rparr>,
       OnSuccess (''Index rebuilt successfully. '' @ msg) # effs))"
| "index_step a s (RebuildRejected msg) =
     (s\<lparr>isRebuildingIndex := False, showRebuildConfirmation := False\<rparr>,
      [OnError (''Error rebuilding index: '' @ msg)])"
| "index_step a s ClickConfirmRollback =
     (if showRollbackConfirmation s \<and> \<not> isRollingBack s then confirmRollback a s else (s, []))"
| "index_step a s (RollbackResolved msg) =
     (let (s1, effs) = fetchIndexStatus a s in
      (s1\<lparr>isRollingBack := False, showRollbackConfirmation := False\<rparr>,
       OnSuccess (''Index rolled back successfully. '' @ msg) # effs))"
| "index_step a s (RollbackRejected msg) =
     (s\<lparr>isRollingBack := False, showRollbackConfirmation := False\<rparr>,
      [OnError (''Error rolling back index: '' @ msg)])"

text \<open>A run from a state: the final state and all effects in order.\<close>

fun index_run :: "(string \<times> (string \<times> string) option) list \<Rightarrow> index_ui \<Rightarrow> index_event list
    \<Rightarrow> index_ui \<times> ui_effect list" where
  "index_run a s [] = (s, [])"
| "index_run a s (ev # evs) =
     (let (s1, effs1) = index_step a s ev; (s2, effs2) = index_run a s1 evs in (s2, effs1 @ effs2))"

text \<open>Whether a list of effects holds a call of \<open>api.rollbackIndex\<close>.\<close>

fun is_rollback_call :: "ui_effect \<Rightarrow> bool" where
  "is_rollback_call (Call name ep) = (name = ''rollbackIndex'')"
| "is_rollback_call (OnSuccess m) = False"
| "is_rollback_call (OnError m) = False"

fun reports_backup :: "index_event \<Rightarrow> bool" where
  "reports_backup (StatusResolved st) = has_backup st"
| "reports_backup ev = False"

text \<open>
  The component against a server. A trace pairs each event with whether the server
  holds a backup at that moment. \<open>rollback_safe\<close> says that every call of
  \<open>api.rollbackIndex\<close> in the run is issued at a moment when it does. The two
  conditions on the server are those of sections 3, 4.3 and 6 of the specification: a
  backup, once there, stays (a rebuild overwrites it, a rollback exchanges it), and a
  status that reports a backup arrives only when there is one.
\<close>

fun rollback_safe :: "(string \<times> (string \<times> string) option) list \<Rightarrow> index_ui
    \<Rightarrow> (index_event \<times> bool) list \<Rightarrow> bool" where
  "rollback_safe a s [] = True"
| "rollback_safe a s ((ev, b) # rest) =
     ((list_ex is_rollback_call (snd (index_step a s ev)) \<longrightarrow> b)
      \<and> rollback_safe a (fst (index_step a s ev)) rest)"

fun backup_kept :: "(index_event \<times> bool) list \<Rightarrow> bool" where
  "backup_kept [] = True"
| "backup_kept ((ev, b) # rest) = ((b \<longrightarrow> list_all snd rest) \<and> backup_kept rest)"

definition status_truthful :: "(index_event \<times> bool) list \<Rightarrow> bool" where
  "status_truthful tr = list_all (\<lambda>(ev, b). reports_backup ev \<longrightarrow> b) tr"

section \<open>Observations and examples\<close>

subsection \<open>What a submission sends\<close>



text \<open>The value of a top-level field of a request's JSON body, \<open>None\<close> when it has none.\<close>

definition body_field :: "http_request \<Rightarrow> string \<Rightarrow> jsval option" where
  "body_field rq k = (case req_body rq of Some (JObj B) \<Rightarrow> map_of B k | _ \<Rightarrow> None)"

subsection \<open>Scenario E\<close>




subsection \<open>IndexManagement with its calls going through\<close>

text \<open>
  Whether the state holds a status that reports a backup, and an \<open>api\<close> object that
  also has the three index methods with the endpoints of section 6 of the specification. The second is not in the
  source; it serves to run the handlers where their calls go through.
\<close>

definition status_has_backup :: "index_ui \<Rightarrow> bool" where
  "status_has_backup s = (case indexStatus s of None \<Rightarrow> False | Some st \<Rightarrow> has_backup st)"

definition api_with_index :: "(string \<times> (string \<times> string) option) list" where
  "api_with_index =
     api @ [(''getIndexStatus'', Some (''GET'', ''/index/status'')),
            (''rebuildIndexes'', Some (''POST'', ''/index/rebuild'')),
            (''rollbackIndex'', Some (''POST'', ''/index/rollback''))]"

definition example_status :: index_status where
  "example_status =
     \<lparr>total_documents = 12, last_updated = Some ''2025-03-01T10:00:00'', using_hybrid = Some False,
      has_backup = True, backup_timestamp = Some ''2025-02-27T09:30:00''\<rparr>"

section \<open>Properties\<close>

subsection \<open>formatAuthors\<close>

text \<open>
  Claim C8. \<open>formatAuthors\<close> is total and depends only on the length of the list and its
  first two elements: \<open>'Unknown Authors'\<close> for \<open>null\<close>, \<open>undefined\<close> and the empty list,
  the sole name for one element, \<open>first and second\<close> for two, \<open>first et al.\<close> for three
  or more. It returns a string on every input (the model has no branch that throws or
  returns \<open>undefined\<close>), and replacing every element after the second by the empty string
  does not change the result.
\<close>

theorem formatAuthors_cases:
  "formatAuthors None = Some ''Unknown Authors''
   \<and> formatAuthors (Some []) = Some ''Unknown Authors''
   \<and> formatAuthors (Some [a]) = Some a
   \<and> formatAuthors (Some [a, b]) = Some (a @ '' and '' @ b)
   \<and> formatAuthors (Some (a # b # c # rest)) = Some (a @ '' et al.'')
   \<and> (\<exists>s. formatAuthors x = Some s)
   \<and> formatAuthors (Some xs) = formatAuthors (Some (take 2 xs @ replicate (length xs - 2) []))"
proof -
  have total: "\<exists>s. formatAuthors x = Some s"
  proof (cases x)
    case None
    then show ?thesis by (simp add: formatAuthors_def)
  next
    case (Some ys)
    then show ?thesis
      by (cases ys) (simp_all add: formatAuthors_def js_index_def)
  qed
  have dep: "formatAuthors (Some xs) = formatAuthors (Some (take 2 xs @ replicate (length xs - 2) []))"
  proof (cases xs)
    case Nil
    then show ?thesis by simp
  next
    case (Cons y ys)
    note outer = this
    show ?thesis
    proof (cases ys)
      case Nil
      with outer show ?thesis by (simp add: formatAuthors_def js_index_def)
    next
      case (Cons z zs)
      with outer show ?thesis
        by (cases zs) (simp_all add: formatAuthors_def js_index_def tmpl_def)
    qed
  qed
  show ?thesis
    using total dep by (simp add: formatAuthors_def js_index_def tmpl_def)
qed

subsection \<open>The author and keyword filters of SearchForm\<close>

lemma form_step_distinct:
  "distinct (authors fs) \<and> distinct (keywords_f fs)
   \<Longrightarrow> distinct (authors (form_step fs ev)) \<and> distinct (keywords_f (form_step fs ev))"
proof (cases ev)
  case (FilterChange n v)
  then show "distinct (authors fs) \<and> distinct (keywords_f fs) \<Longrightarrow> ?thesis"
    by (cases n) simp_all
qed (simp_all add: addAuthorFilter_def removeAuthorFilter_def addKeywordFilter_def
      removeKeywordFilter_def resetFilters_def initial_filters_def)

lemma foldl_form_step_distinct:
  "distinct (authors fs) \<and> distinct (keywords_f fs)
   \<Longrightarrow> distinct (authors (foldl form_step fs evs)) \<and> distinct (keywords_f (foldl form_step fs evs))"
proof (induction evs arbitrary: fs)
  case Nil
  then show ?case by simp
next
  case (Cons ev evs)
  from form_step_distinct [OF Cons.prems]
  have "distinct (authors (form_step fs ev)) \<and> distinct (keywords_f (form_step fs ev))" .
  from Cons.IH [OF this] show ?case by simp
qed

lemma filter_neq_absent: "x \<notin> set xs \<Longrightarrow> filter (\<lambda>y. y \<noteq> x) xs = xs"
  by (induction xs) auto

text \<open>
  Claim C9. For every filter state, \<open>addAuthorFilter(a)\<close> leaves the state unchanged when
  \<open>a\<close> is empty or already present and otherwise appends \<open>a\<close> once at the end, and
  likewise \<open>addKeywordFilter(k)\<close>; adding twice is adding once; after any sequence of
  events of the form, starting from its initial state, the two lists have no duplicates;
  and removing an author (a keyword) right after adding it to a state that did not
  contain it restores the state.
\<close>

theorem filter_lists_duplicate_free:
  "(a = [] \<or> a \<in> set (authors fs) \<longrightarrow> addAuthorFilter fs a fs = fs)
   \<and> (a \<noteq> [] \<and> a \<notin> set (authors fs)
        \<longrightarrow> addAuthorFilter fs a fs = fs\<lparr>authors := authors fs @ [a]\<rparr>)
   \<and> (k = [] \<or> k \<in> set (keywords_f fs) \<longrightarrow> addKeywordFilter fs k fs = fs)
   \<and> (k \<noteq> [] \<and> k \<notin> set (keywords_f fs)
        \<longrightarrow> addKeywordFilter fs k fs = fs\<lparr>keywords_f := keywords_f fs @ [k]\<rparr>)
   \<and> form_step (form_step fs (AddAuthor a)) (AddAuthor a) = form_step fs (AddAuthor a)
   \<and> form_step (form_step fs (AddKeyword k)) (AddKeyword k) = form_step fs (AddKeyword k)
   \<and> distinct (authors (form_run evs)) \<and> distinct (keywords_f (form_run evs))
   \<and> (a \<notin> set (authors fs) \<longrightarrow> removeAuthorFilter a (addAuthorFilter fs a fs) = fs)
   \<and> (k \<notin> set (keywords_f fs) \<longrightarrow> removeKeywordFilter k (addKeywordFilter fs k fs) = fs)"
proof -
  have add_a: "(a = [] \<or> a \<in> set (authors fs) \<longrightarrow> addAuthorFilter fs a fs = fs)
      \<and> (a \<noteq> [] \<and> a \<notin> set (authors fs)
           \<longrightarrow> addAuthorFilter fs a fs = fs\<lparr>authors := authors fs @ [a]\<rparr>)"
    by (auto simp: addAuthorFilter_def)
  have add_k: "(k = [] \<or> k \<in> set (keywords_f fs) \<longrightarrow> addKeywordFilter fs k fs = fs)
      \<and> (k \<noteq> [] \<and> k \<notin> set (keywords_f fs)
           \<longrightarrow> addKeywordFilter fs k fs = fs\<lparr>keywords_f := keywords_f fs @ [k]\<rparr>)"
    by (auto simp: addKeywordFilter_def)
  have idem_a: "form_step (form_step fs (AddAuthor a)) (AddAuthor a) = form_step fs (AddAuthor a)"
    by (simp add: addAuthorFilter_def)
  have idem_k: "form_step (form_step fs (AddKeyword k)) (AddKeyword k) = form_step fs (AddKeyword k)"
    by (simp add: addKeywordFilter_def)
  have run: "distinct (authors (form_run evs)) \<and> distinct (keywords_f (form_run evs))"
    unfolding form_run_def
    by (rule foldl_form_step_distinct) (simp add: initial_filters_def)
  have rem_a: "a \<notin> set (authors fs) \<longrightarrow> removeAuthorFilter a (addAuthorFilter fs a fs) = fs"
    by (simp add: removeAuthorFilter_def addAuthorFilter_def filter_neq_absent)
  have rem_k: "k \<notin> set (keywords_f fs) \<longrightarrow> removeKeywordFilter k (addKeywordFilter fs k fs) = fs"
    by (simp add: removeKeywordFilter_def addKeywordFilter_def filter_neq_absent)
  from add_a add_k idem_a idem_k run rem_a rem_k show ?thesis
    by blast
qed

theorem filter_lists_duplicate_free_witness:
  "''Ada'' \<noteq> [] \<and> ''Ada'' \<notin> set (authors initial_filters)
   \<and> addAuthorFilter initial_filters ''Ada'' initial_filters = initial_filters\<lparr>authors := [''Ada'']\<rparr>
   \<and> ''ml'' \<noteq> [] \<and> ''ml'' \<notin> set (keywords_f initial_filters)
   \<and> addKeywordFilter initial_filters ''ml'' initial_filters = initial_filters\<lparr>keywords_f := [''ml'']\<rparr>
   \<and> ''Ada'' \<in> set (authors (initial_filters\<lparr>authors := [''Ada''], keywords_f := [''ml'']\<rparr>))
   \<and> addAuthorFilter (initial_filters\<lparr>authors := [''Ada''], keywords_f := [''ml'']\<rparr>) ''Ada''
         (initial_filters\<lparr>authors := [''Ada''], keywords_f := [''ml'']\<rparr>)
       = initial_filters\<lparr>authors := [''Ada''], keywords_f := [''ml'']\<rparr>
   \<and> ''ml'' \<in> set (keywords_f (initial_filters\<lparr>authors := [''Ada''], keywords_f := [''ml'']\<rparr>))
   \<and> addKeywordFilter (initial_filters\<lparr>authors := [''Ada''], keywords_f := [''ml'']\<rparr>) ''ml''
         (initial_filters\<lparr>authors := [''Ada''], keywords_f := [''ml'']\<rparr>)
       = initial_filters\<lparr>authors := [''Ada''], keywords_f := [''ml'']\<rparr>
   \<and> removeAuthorFilter ''Ada'' (addAuthorFilter initial_filters ''Ada'' initial_filters) = initial_filters
   \<and> removeKeywordFilter ''ml'' (addKeywordFilter initial_filters ''ml'' initial_filters) = initial_filters
   \<and> distinct (authors (form_run [AddAuthor ''Ada'', AddAuthor ''Ada'']))"
  using filter_lists_duplicate_free [of "''Ada''" initial_filters "''ml''" "[AddAuthor ''Ada'', AddAuthor ''Ada'']"]
    filter_lists_duplicate_free [of "''Ada''" "initial_filters\<lparr>authors := [''Ada''], keywords_f := [''ml'']\<rparr>"
      "''ml''" "[]"]
  by (simp add: initial_filters_def addAuthorFilter_def addKeywordFilter_def removeAuthorFilter_def
      removeKeywordFilter_def form_run_def)

subsection \<open>What handleSubmit sends\<close>

lemma parseInt_range: "parseInt s = JNaN \<or> (\<exists>n. parseInt s = JNum (of_int n))"
  by (simp add: parseInt_def Let_def)


lemma parseInt_defined [simp]: "parseInt s \<noteq> JUndefined"
  using parseInt_range [of s] by auto









subsection \<open>The api object\<close>

text \<open>
  Claim C1. The claim says the \<open>api\<close> object defines \<open>getIndexStatus\<close>, \<open>rebuildIndexes\<close>
  and \<open>rollbackIndex\<close>, the methods IndexManagement calls. The object in
  \<open>services/api.js\<close> has six properties and none of these: each of the three calls
  raises a TypeError, which the component catches and reports through \<open>onError\<close>, and
  no request for the index endpoints is sent.
\<close>

theorem api_lacks_index_methods:
  "map_of api ''getIndexStatus'' = None
   \<and> map_of api ''rebuildIndexes'' = None
   \<and> map_of api ''rollbackIndex'' = None
   \<and> map fst api = [''search'', ''getFilterOptions'', ''uploadPaper'', ''listAllPapers'',
                     ''deletePaper'', ''getPaperDownloadUrl'']
   \<and> api_call api ''getIndexStatus'' = Inl TypeError
   \<and> api_call api ''rebuildIndexes'' = Inl TypeError
   \<and> api_call api ''rollbackIndex'' = Inl TypeError
   \<and> index_step api initial_ui Mount
       = (initial_ui, [OnError ''Error fetching index status: api.getIndexStatus is not a function''])
   \<and> snd (index_step api (initial_ui\<lparr>showRebuildConfirmation := True\<rparr>) ClickConfirmRebuild)
       = [OnError ''Error rebuilding index: api.rebuildIndexes is not a function'']
   \<and> snd (index_step api (initial_ui\<lparr>showRollbackConfirmation := True\<rparr>) ClickConfirmRollback)
       = [OnError ''Error rolling back index: api.rollbackIndex is not a function'']"
  by (simp add: api_def api_call_def fetchIndexStatus_def confirmRebuild_def confirmRollback_def
      initial_ui_def not_a_function_def)

subsection \<open>The request of api.search\<close>

lemma json_props_keys: "k \<notin> fst ` set kvs \<Longrightarrow> map_of (json_props kvs) k = None"
proof (induction kvs)
  case Nil
  then show ?case by simp
next
  case (Cons kv kvs)
  then show ?case by (cases kv) auto
qed

lemma json_props_lookup:
  "distinct (map fst kvs) \<Longrightarrow>
   map_of (json_props kvs) k =
     (case map_of kvs k of None \<Rightarrow> None
      | Some v \<Rightarrow> if v = JUndefined then None else Some (json_value v))"
proof (induction kvs)
  case Nil
  then show ?case by simp
next
  case (Cons kv kvs)
  obtain k' v' where kv: "kv = (k', v')" by (cases kv)
  from Cons.prems kv have fresh: "k' \<notin> fst ` set kvs" and rest: "distinct (map fst kvs)"
    by auto
  show ?case
  proof (cases "k = k'")
    case True
    with fresh kv show ?thesis by (simp add: json_props_keys)
  next
    case False
    with kv Cons.IH [OF rest] show ?thesis by simp
  qed
qed

text \<open>
  Claim C2, as amended. For every call of \<open>api.search\<close> with an object (one value per
  key), the request is a POST to \<open>API_BASE_URL/search\<close>, with \<open>?use_paragraphs=true\<close>
  appended to the URL exactly when the \<open>useParagraphs\<close> of the argument is truthy, the
  header \<open>Content-Type: application/json\<close>, and a JSON body in which every field other
  than \<open>useParagraphs\<close> is the caller's own: \<open>query\<close> and \<open>filters\<close> are carried as
  given, and no \<open>use_paragraphs\<close>, \<open>limit\<close> or \<open>offset\<close> is added, a field left out or
  \<open>undefined\<close> staying out.
\<close>

theorem search_request_shape:
  "distinct (map fst sr) \<Longrightarrow> k \<noteq> ''useParagraphs'' \<Longrightarrow>
     req_method (search_fetch env sr) = ''POST''
   \<and> req_url (search_fetch env sr)
       = API_BASE_URL env @ ''/search''
           @ (if truthy (case map_of sr ''useParagraphs'' of None \<Rightarrow> JUndefined | Some v \<Rightarrow> v)
              then ''?use_paragraphs=true'' else [])
   \<and> req_headers (search_fetch env sr) = [(''Content-Type'', ''application/json'')]
   \<and> body_field (search_fetch env sr) k
       = (case map_of sr k of None \<Rightarrow> None
          | Some v \<Rightarrow> if v = JUndefined then None else Some (json_value v))"
proof -
  assume keys: "distinct (map fst sr)" and k: "k \<noteq> ''useParagraphs''"
  have line: "req_method (search_fetch env sr) = ''POST''"
    and url: "req_url (search_fetch env sr)
       = API_BASE_URL env @ ''/search''
           @ (if truthy (case map_of sr ''useParagraphs'' of None \<Rightarrow> JUndefined | Some v \<Rightarrow> v)
              then ''?use_paragraphs=true'' else [])"
    and headers: "req_headers (search_fetch env sr) = [(''Content-Type'', ''application/json'')]"
    by (simp_all add: search_fetch_def)
  have "req_body (search_fetch env sr) = Some (JObj (json_props sr))"
    by (simp add: search_fetch_def)
  then have "body_field (search_fetch env sr) k = map_of (json_props sr) k"
    by (simp add: body_field_def)
  also from keys have "\<dots> = (case map_of sr k of None \<Rightarrow> None
          | Some v \<Rightarrow> if v = JUndefined then None else Some (json_value v))"
    by (rule json_props_lookup)
  finally show ?thesis
    using line url headers by simp
qed

theorem search_request_shape_witness:
  "distinct (map fst [(''query'', JStr ''transformers''), (''filters'', JNull), (''useParagraphs'', JBool True)])
   \<and> ''limit'' \<noteq> ''useParagraphs'' \<and> ''query'' \<noteq> ''useParagraphs''
   \<and> req_url (search_fetch None
         [(''query'', JStr ''transformers''), (''filters'', JNull), (''useParagraphs'', JBool True)])
       = ''/api/search?use_paragraphs=true''
   \<and> body_field (search_fetch None
         [(''query'', JStr ''transformers''), (''filters'', JNull), (''useParagraphs'', JBool True)]) ''query''
       = Some (JStr ''transformers'')
   \<and> body_field (search_fetch None
         [(''query'', JStr ''transformers''), (''filters'', JNull), (''useParagraphs'', JBool True)]) ''limit''
       = None"
proof -
  let ?sr = "[(''query'', JStr ''transformers''), (''filters'', JNull), (''useParagraphs'', JBool True)]"
  have d: "distinct (map fst ?sr)" by simp
  have k1: "''limit'' \<noteq> ''useParagraphs''" and k2: "''query'' \<noteq> ''useParagraphs''" by simp_all
  show ?thesis
    using d k1 k2 search_request_shape [OF d k1, of None] search_request_shape [OF d k2, of None]
    by (simp add: API_BASE_URL_def)
qed

text \<open>
  Claim C2 as stated fails: with \<open>useParagraphs: true\<close> the flag goes into the query
  string, and the body has no \<open>use_paragraphs\<close>, no \<open>limit\<close> and no \<open>offset\<close>.
\<close>

theorem search_body_counterexample:
  "search_fetch None [(''query'', JStr ''transformers''), (''filters'', JNull), (''useParagraphs'', JBool True)]
     = \<lparr>req_method = ''POST'', req_url = ''/api/search?use_paragraphs=true'',
        req_headers = [(''Content-Type'', ''application/json'')],
        req_body = Some (JObj [(''query'', JStr ''transformers''), (''filters'', JNull),
                               (''useParagraphs'', JBool True)])\<rparr>
   \<and> body_field (search_fetch None
         [(''query'', JStr ''transformers''), (''filters'', JNull), (''useParagraphs'', JBool True)])
         ''use_paragraphs'' = None
   \<and> body_field (search_fetch None
         [(''query'', JStr ''transformers''), (''filters'', JNull), (''useParagraphs'', JBool True)])
         ''limit'' = None
   \<and> body_field (search_fetch None
         [(''query'', JStr ''transformers''), (''filters'', JNull), (''useParagraphs'', JBool True)])
         ''offset'' = None"
  by (simp add: search_fetch_def body_field_def API_BASE_URL_def)

subsection \<open>handleResponse\<close>









subsection \<open>The two versions of ResultList\<close>

lemma map_err_total: "map_err (\<lambda>x. Inr (f x)) xs = Inr (map f xs)"
  by (induction xs) (simp_all add: map_err_def)

lemma matching_section_off: "matching_section rx False ep q r = Inr []"
  by (simp add: matching_section_def split: option.split)

lemma context_section_off: "context_section False ep r = []"
  by (simp add: context_section_def split: option.split)

lemma detail_ext_off: "detail_ext rx False ep q r = Inr (detail_plain r)"
  by (simp add: detail_ext_def detail_plain_def matching_section_off context_section_off
      split: option.split)

lemma card_ext_off: "card_ext rx False eid ep q r = Inr (card_plain eid r)"
  by (simp add: card_ext_def card_plain_def detail_ext_off)

lemma ResultList_ext_off: "ResultList_ext rx p (Some False) eid ep = Inr (ResultList_plain p eid)"
proof (cases "length (results p) = 0")
  case True
  then show ?thesis by (simp add: ResultList_ext_def ResultList_plain_def)
next
  case False
  have cards: "card_ext rx False eid ep (query p) = (\<lambda>r. Inr (card_plain eid r))"
    by (rule ext) (rule card_ext_off)
  have "map_err (card_ext rx False eid ep (query p)) (results p) = Inr (map (card_plain eid) (results p))"
    unfolding cards by (rule map_err_total)
  with False show ?thesis by (simp add: ResultList_ext_def ResultList_plain_def)
qed

text \<open>
  Claim C10. With \<open>useParagraphs\<close> false or absent, the extended ResultList
  (src/unnamed/part_000) and the plain one (src/unnamed/part_001) render the same
  tree for the same props and the same \<open>expandedId\<close>: the same empty-results message,
  the same count header, and per result the same card and the same expanded abstract,
  keywords and download sections. The extended one never throws there, whatever the
  results carry in \<open>matching_paragraphs\<close> and whatever the state \<open>expandedParagraphs\<close>.
\<close>

theorem ResultList_versions_agree:
  "ResultList_ext rx p None expandedId expandedParagraphs = Inr (ResultList_plain p expandedId)
   \<and> ResultList_ext rx p (Some False) expandedId expandedParagraphs = Inr (ResultList_plain p expandedId)"
proof -
  have "ResultList_ext rx p None expandedId expandedParagraphs
        = ResultList_ext rx p (Some False) expandedId expandedParagraphs"
    by (simp add: ResultList_ext_def)
  then show ?thesis by (simp add: ResultList_ext_off)
qed

subsection \<open>The collapsed list of matching paragraphs\<close>


lemma child_cases: "child s = [] \<or> (\<exists>t. child s = [Text t])"
  by (cases s) (simp_all add: child_def)

lemma find_card_child [simp]: "concat (map (find_nodes is_paragraph_card) (child s)) = []"
  using child_cases [of s] by auto

lemma find_button_child [simp]: "concat (map (find_nodes is_button) (child s)) = []"
  using child_cases [of s] by auto


lemma concat_all_empty: "(\<And>x. x \<in> set xs \<Longrightarrow> f x = []) \<Longrightarrow> concat (map f xs) = []"
  by (induction xs) simp_all




















subsection \<open>The gate on rollback in IndexManagement\<close>

lemma fetchIndexStatus_keeps:
  "showRollbackConfirmation (fst (fetchIndexStatus a s)) = showRollbackConfirmation s
   \<and> indexStatus (fst (fetchIndexStatus a s)) = indexStatus s
   \<and> isRebuildingIndex (fst (fetchIndexStatus a s)) = isRebuildingIndex s
   \<and> isRollingBack (fst (fetchIndexStatus a s)) = isRollingBack s
   \<and> \<not> list_ex is_rollback_call (snd (fetchIndexStatus a s))"
  by (simp add: fetchIndexStatus_def api_call_def split: option.split)

lemma index_step_gate:
  assumes "index_step a s ev = (s1, effs)"
  shows "(list_ex is_rollback_call effs
           \<longrightarrow> ev = ClickConfirmRollback \<and> showRollbackConfirmation s \<and> \<not> isRollingBack s)
       \<and> (showRollbackConfirmation s1
           \<longrightarrow> showRollbackConfirmation s \<or> (ev = ClickRollback \<and> \<not> rollback_disabled s))
       \<and> (status_has_backup s1 \<longrightarrow> status_has_backup s \<or> reports_backup ev)"
proof (cases ev)
  case Mount
  with assms fetchIndexStatus_keeps [of a s] show ?thesis
    by (auto simp: status_has_backup_def)
next
  case ClickRefresh
  with assms fetchIndexStatus_keeps [of a s] show ?thesis
    by (auto simp: status_has_backup_def split: if_splits)
next
  case (RebuildResolved msg)
  with assms fetchIndexStatus_keeps [of a s] show ?thesis
    by (auto simp: status_has_backup_def split: prod.splits)
next
  case (RollbackResolved msg)
  with assms fetchIndexStatus_keeps [of a s] show ?thesis
    by (auto simp: status_has_backup_def split: prod.splits)
next
  case ClickConfirmRebuild
  with assms show ?thesis
    by (auto simp: status_has_backup_def confirmRebuild_def api_call_def split: if_splits option.splits)
next
  case ClickConfirmRollback
  with assms show ?thesis
    by (auto simp: status_has_backup_def confirmRollback_def api_call_def split: if_splits option.splits)
qed (use assms in \<open>auto simp: status_has_backup_def split: if_splits\<close>)

lemma index_run_gate:
  "list_ex is_rollback_call (snd (index_run a s evs))
   \<Longrightarrow> showRollbackConfirmation s \<or> status_has_backup s \<or> list_ex reports_backup evs"
proof (induction evs arbitrary: s)
  case Nil
  then show ?case by simp
next
  case (Cons ev evs)
  obtain s1 effs1 where step: "index_step a s ev = (s1, effs1)"
    by (cases "index_step a s ev")
  obtain s2 effs2 where run: "index_run a s1 evs = (s2, effs2)"
    by (cases "index_run a s1 evs")
  from Cons.prems step run have "list_ex is_rollback_call effs1 \<or> list_ex is_rollback_call effs2"
    by simp
  then show ?case
  proof
    assume "list_ex is_rollback_call effs1"
    with index_step_gate [OF step] show ?thesis by simp
  next
    assume "list_ex is_rollback_call effs2"
    with run have "list_ex is_rollback_call (snd (index_run a s1 evs))" by simp
    from Cons.IH [OF this]
    have "showRollbackConfirmation s1 \<or> status_has_backup s1 \<or> list_ex reports_backup evs" .
    with index_step_gate [OF step] show ?thesis
      by (auto simp: rollback_disabled_def status_has_backup_def)
  qed
qed

lemma rollback_safe_inv:
  assumes "status_truthful tr" and "backup_kept tr"
    and "showRollbackConfirmation s \<or> status_has_backup s \<longrightarrow> list_all snd tr"
  shows "rollback_safe a s tr"
  using assms
proof (induction tr arbitrary: s)
  case Nil
  then show ?case by simp
next
  case (Cons eb rest)
  obtain ev b where eb: "eb = (ev, b)" by (cases eb)
  obtain s1 effs where step: "index_step a s ev = (s1, effs)"
    by (cases "index_step a s ev")
  note gate = index_step_gate [OF step]
  from Cons.prems(1) eb have truthful: "reports_backup ev \<longrightarrow> b" and truthful': "status_truthful rest"
    by (simp_all add: status_truthful_def)
  from Cons.prems(2) eb have kept: "b \<longrightarrow> list_all snd rest" and kept': "backup_kept rest"
    by simp_all
  from Cons.prems(3) eb
  have known: "showRollbackConfirmation s \<or> status_has_backup s \<longrightarrow> b \<and> list_all snd rest"
    by simp
  have now: "list_ex is_rollback_call effs \<longrightarrow> b"
    using gate known by blast
  have later: "showRollbackConfirmation s1 \<or> status_has_backup s1 \<longrightarrow> list_all snd rest"
    using gate known truthful kept
    by (auto simp: rollback_disabled_def status_has_backup_def)
  from Cons.IH [OF truthful' kept' later] now step eb show ?case
    by simp
qed

lemma rollback_safe_initial:
  "status_truthful tr \<Longrightarrow> backup_kept tr \<Longrightarrow> rollback_safe a initial_ui tr"
  by (rule rollback_safe_inv) (simp_all add: initial_ui_def status_has_backup_def)

text \<open>
  Claim C4. The rollback button is disabled exactly when a rebuild or a rollback is in
  flight, no status is loaded, or the loaded status has \<open>has_backup\<close> false, and a click
  on the disabled button does nothing. \<open>api.rollbackIndex\<close> is called only by the
  confirm button of the open rollback dialog, and that dialog opens only by a click on
  the enabled button, which needs a loaded status with \<open>has_backup\<close> true. So in every
  run of the component from its initial state, whatever \<open>api\<close> object it is given, a
  rollback call comes only after a fetched status has reported a backup; and against
  every server that keeps its backup and reports it truthfully, each rollback call is
  issued while the server holds a backup, so that none can meet NoBackupError.
\<close>

theorem rollback_gated:
  "rollback_disabled s
     = (isRebuildingIndex s \<or> isRollingBack s \<or> indexStatus s = None
        \<or> (\<exists>st. indexStatus s = Some st \<and> \<not> has_backup st))
   \<and> (rollback_disabled s \<longrightarrow> index_step a s ClickRollback = (s, []))
   \<and> (list_ex is_rollback_call (snd (index_step a s ev))
        \<longrightarrow> ev = ClickConfirmRollback \<and> showRollbackConfirmation s \<and> \<not> isRollingBack s)
   \<and> (showRollbackConfirmation (fst (index_step a s ev)) \<and> \<not> showRollbackConfirmation s
        \<longrightarrow> ev = ClickRollback \<and> \<not> isRebuildingIndex s \<and> \<not> isRollingBack s
            \<and> (\<exists>st. indexStatus s = Some st \<and> has_backup st))
   \<and> (list_ex is_rollback_call (snd (index_run a initial_ui evs)) \<longrightarrow> list_ex reports_backup evs)
   \<and> (status_truthful tr \<and> backup_kept tr \<longrightarrow> rollback_safe a initial_ui tr)"
proof -
  have button: "rollback_disabled s
     = (isRebuildingIndex s \<or> isRollingBack s \<or> indexStatus s = None
        \<or> (\<exists>st. indexStatus s = Some st \<and> \<not> has_backup st))"
    by (cases "indexStatus s") (simp_all add: rollback_disabled_def)
  have click: "rollback_disabled s \<longrightarrow> index_step a s ClickRollback = (s, [])"
    by simp
  obtain s1 effs where step: "index_step a s ev = (s1, effs)"
    by (cases "index_step a s ev")
  have call: "list_ex is_rollback_call (snd (index_step a s ev))
        \<longrightarrow> ev = ClickConfirmRollback \<and> showRollbackConfirmation s \<and> \<not> isRollingBack s"
    using index_step_gate [OF step] step by simp
  have dialog: "showRollbackConfirmation (fst (index_step a s ev)) \<and> \<not> showRollbackConfirmation s
        \<longrightarrow> ev = ClickRollback \<and> \<not> isRebuildingIndex s \<and> \<not> isRollingBack s
            \<and> (\<exists>st. indexStatus s = Some st \<and> has_backup st)"
    using index_step_gate [OF step] step
    by (cases "indexStatus s") (auto simp: rollback_disabled_def)
  have run: "list_ex is_rollback_call (snd (index_run a initial_ui evs)) \<longrightarrow> list_ex reports_backup evs"
  proof
    assume "list_ex is_rollback_call (snd (index_run a initial_ui evs))"
    from index_run_gate [OF this] show "list_ex reports_backup evs"
      by (simp add: initial_ui_def status_has_backup_def)
  qed
  have server: "status_truthful tr \<and> backup_kept tr \<longrightarrow> rollback_safe a initial_ui tr"
    using rollback_safe_initial by blast
  from button click call dialog run server show ?thesis
    by (intro conjI)
qed

theorem rollback_gated_witness:
  "rollback_disabled initial_ui
   \<and> index_step api_with_index initial_ui ClickRollback = (initial_ui, [])
   \<and> \<not> rollback_disabled (initial_ui\<lparr>indexStatus := Some example_status\<rparr>)
   \<and> showRollbackConfirmation
        (fst (index_step api_with_index (initial_ui\<lparr>indexStatus := Some example_status\<rparr>) ClickRollback))
   \<and> list_ex is_rollback_call
        (snd (index_step api_with_index
               (initial_ui\<lparr>indexStatus := Some example_status, showRollbackConfirmation := True\<rparr>)
               ClickConfirmRollback))
   \<and> snd (index_run api_with_index initial_ui
             [Mount, StatusResolved example_status, ClickRollback, ClickConfirmRollback])
       = [Call ''getIndexStatus'' (Some (''GET'', ''/index/status'')),
          Call ''rollbackIndex'' (Some (''POST'', ''/index/rollback''))]
   \<and> list_ex reports_backup [Mount, StatusResolved example_status, ClickRollback, ClickConfirmRollback]
   \<and> status_truthful [(Mount, False), (StatusResolved example_status, True), (ClickRollback, True),
                       (ClickConfirmRollback, True)]
   \<and> backup_kept [(Mount, False), (StatusResolved example_status, True), (ClickRollback, True),
                   (ClickConfirmRollback, True)]
   \<and> rollback_safe api_with_index initial_ui
        [(Mount, False), (StatusResolved example_status, True), (ClickRollback, True),
         (ClickConfirmRollback, True)]"
proof -
  let ?s1 = "initial_ui\<lparr>indexStatus := Some example_status\<rparr>"
  let ?s2 = "initial_ui\<lparr>indexStatus := Some example_status, showRollbackConfirmation := True\<rparr>"
  let ?evs = "[Mount, StatusResolved example_status, ClickRollback, ClickConfirmRollback]"
  let ?tr = "[(Mount, False), (StatusResolved example_status, True), (ClickRollback, True),
              (ClickConfirmRollback, True)]"
  have calls: "api_call api_with_index ''rollbackIndex'' = Inr (Some (''POST'', ''/index/rollback''))"
    "api_call api_with_index ''getIndexStatus'' = Inr (Some (''GET'', ''/index/status''))"
    by (simp_all add: api_call_def api_with_index_def api_def)
  have run: "snd (index_run api_with_index initial_ui ?evs)
       = [Call ''getIndexStatus'' (Some (''GET'', ''/index/status'')),
          Call ''rollbackIndex'' (Some (''POST'', ''/index/rollback''))]"
    by (simp add: initial_ui_def fetchIndexStatus_def confirmRollback_def calls
        rollback_disabled_def example_status_def)
  have off: "rollback_disabled initial_ui"
    by (simp add: rollback_disabled_def initial_ui_def)
  have on: "\<not> rollback_disabled ?s1"
    by (simp add: rollback_disabled_def initial_ui_def example_status_def)
  have opened: "showRollbackConfirmation (fst (index_step api_with_index ?s1 ClickRollback))
                \<and> \<not> showRollbackConfirmation ?s1"
    using on by (simp add: initial_ui_def)
  have called: "list_ex is_rollback_call (snd (index_step api_with_index ?s2 ClickConfirmRollback))"
    by (simp add: initial_ui_def confirmRollback_def calls)
  have issued: "list_ex is_rollback_call (snd (index_run api_with_index initial_ui ?evs))"
    unfolding run by simp
  have truthful: "status_truthful ?tr" and kept: "backup_kept ?tr"
    by (simp_all add: status_truthful_def example_status_def)
  from rollback_gated [of initial_ui api_with_index ClickRollback ?evs ?tr] off issued truthful kept
  have noop: "index_step api_with_index initial_ui ClickRollback = (initial_ui, [])"
    and reported: "list_ex reports_backup ?evs"
    and safe: "rollback_safe api_with_index initial_ui ?tr"
    by blast+
  from rollback_gated [of ?s1 api_with_index ClickRollback ?evs ?tr] opened
  have "\<exists>st. indexStatus ?s1 = Some st \<and> has_backup st"
    by blast
  moreover from rollback_gated [of ?s2 api_with_index ClickConfirmRollback ?evs ?tr] called
  have "showRollbackConfirmation ?s2"
    by blast
  ultimately show ?thesis
    using off noop on opened called run reported truthful kept safe by blast
qed

subsection \<open>Rounding to a double\<close>

lemma rhe_floor_or_succ: "round_half_even q = \<lfloor>q\<rfloor> \<or> round_half_even q = \<lfloor>q\<rfloor> + 1"
  by (simp add: round_half_even_def Let_def)

lemma rhe_of_int [simp]: "round_half_even (of_int n) = n"
  by (simp add: round_half_even_def)

lemma rhe_mono: "q \<le> q' \<Longrightarrow> round_half_even q \<le> round_half_even q'"
proof -
  assume le: "q \<le> q'"
  then have fl: "\<lfloor>q\<rfloor> \<le> \<lfloor>q'\<rfloor>" by (rule floor_mono)
  show ?thesis
  proof (cases "\<lfloor>q\<rfloor> = \<lfloor>q'\<rfloor>")
    case True
    with le have "q - of_int \<lfloor>q\<rfloor> \<le> q' - of_int \<lfloor>q'\<rfloor>" by simp
    with True show ?thesis
      by (auto simp: round_half_even_def Let_def)
  next
    case False
    with fl have "\<lfloor>q\<rfloor> + 1 \<le> \<lfloor>q'\<rfloor>" by simp
    moreover have "round_half_even q \<le> \<lfloor>q\<rfloor> + 1"
      using rhe_floor_or_succ [of q] by auto
    moreover have "\<lfloor>q'\<rfloor> \<le> round_half_even q'"
      using rhe_floor_or_succ [of q'] by auto
    ultimately show ?thesis by linarith
  qed
qed

lemma rhe_close: "\<bar>of_int (round_half_even q) - q\<bar> \<le> 1 / 2"
proof -
  have "of_int \<lfloor>q\<rfloor> \<le> q" and "q < of_int \<lfloor>q\<rfloor> + 1"
    by linarith+
  then show ?thesis
    by (auto simp: round_half_even_def Let_def abs_le_iff)
qed

lemma ilog2_bounds:
  assumes "0 < x"
  shows "2 powi ilog2 x \<le> x \<and> x < 2 powi (ilog2 x + 1)"
proof (cases "1 \<le> x")
  case True
  let ?n = "\<lfloor>x\<rfloor>"
  from True have n: "0 < ?n" by simp
  from bitlen_bounds [OF n] have lo: "2 ^ nat (bitlen ?n - 1) \<le> ?n" and hi: "?n < 2 ^ nat (bitlen ?n)"
    by simp_all
  from n have b1: "1 \<le> bitlen ?n"
    using bitlen_eq_zero_iff [of ?n] bitlen_nonneg [of ?n] by linarith
  have "(2::rat) powi (bitlen ?n - 1) = of_int (2 ^ nat (bitlen ?n - 1))"
    using b1 by (simp add: power_int_nonneg_exp)
  also have "\<dots> \<le> of_int ?n" using lo by (simp only: of_int_le_iff)
  also have "\<dots> \<le> x" by simp
  finally have low: "2 powi (bitlen ?n - 1) \<le> x" .
  from hi have "?n + 1 \<le> 2 ^ nat (bitlen ?n)" by simp
  then have step: "(of_int (?n + 1) :: rat) \<le> of_int (2 ^ nat (bitlen ?n))"
    by (simp only: of_int_le_iff)
  have "x < of_int (?n + 1)" by linarith
  also note step
  also have "(of_int (2 ^ nat (bitlen ?n)) :: rat) = 2 powi (bitlen ?n)"
    using b1 by (simp add: power_int_nonneg_exp)
  finally have "x < 2 powi (bitlen ?n)" .
  with low True show ?thesis by (simp add: ilog2_def)
next
  case False
  let ?m = "\<lceil>1 / x\<rceil>"
  let ?k = "bitlen (?m - 1)"
  from False assms have y: "1 < 1 / x" by simp
  then have m: "0 < ?m - 1" by linarith
  from bitlen_bounds [OF m] have lo: "2 ^ nat (?k - 1) \<le> ?m - 1" and hi: "?m - 1 < 2 ^ nat ?k"
    by simp_all
  from m have k1: "1 \<le> ?k"
    using bitlen_eq_zero_iff [of "?m - 1"] bitlen_nonneg [of "?m - 1"] by linarith
  from hi have "?m \<le> 2 ^ nat ?k" by simp
  then have step: "(of_int ?m :: rat) \<le> of_int (2 ^ nat ?k)"
    by (simp only: of_int_le_iff)
  have "1 / x \<le> of_int ?m" by simp
  also note step
  also have "(of_int (2 ^ nat ?k) :: rat) = 2 powi ?k"
    using k1 by (simp add: power_int_nonneg_exp)
  finally have "1 / x \<le> 2 powi ?k" .
  with assms have "1 \<le> x * 2 powi ?k"
    by (simp add: field_simps)
  then have "1 / 2 powi ?k \<le> x"
    by (simp add: pos_divide_le_eq)
  then have low: "2 powi (- ?k) \<le> x"
    by (simp only: power_int_minus_divide)
  have "(2::rat) powi (?k - 1) = of_int (2 ^ nat (?k - 1))"
    using k1 by (simp add: power_int_nonneg_exp)
  also have "\<dots> \<le> of_int (?m - 1)" using lo by (simp only: of_int_le_iff)
  also have "\<dots> < 1 / x" by linarith
  finally have "2 powi (?k - 1) < 1 / x" .
  with assms have "x * 2 powi (?k - 1) < 1"
    by (simp add: field_simps)
  then have "x < 1 / 2 powi (?k - 1)"
    by (simp add: pos_less_divide_eq)
  then have "x < 2 powi (- (?k - 1))"
    by (simp only: power_int_minus_divide)
  moreover have "- (?k - 1) = - ?k + 1" by simp
  ultimately have "x < 2 powi (- ?k + 1)" by (simp only:)
  with low False show ?thesis by (simp only: ilog2_def if_False simp_thms)
qed

lemma ilog2_mono:
  assumes "0 < x" and "x \<le> y"
  shows "ilog2 x \<le> ilog2 y"
proof -
  from assms have y: "0 < y" by simp
  from ilog2_bounds [OF assms(1)] ilog2_bounds [OF y] assms(2)
  have "(2::rat) powi ilog2 x < 2 powi (ilog2 y + 1)" by linarith
  then have "ilog2 x < ilog2 y + 1"
    by (rule_tac ccontr) (simp add: not_less power_int_increasing leD)
  then show ?thesis by simp
qed


lemma rhe_nonneg: "0 \<le> q \<Longrightarrow> 0 \<le> round_half_even q"
  using rhe_mono [of 0 q] rhe_of_int [of 0] by simp

lemma RN_nonneg: "0 \<le> x \<Longrightarrow> 0 \<le> RN x"
  by (simp add: RN_def rhe_nonneg)

lemma ulp_exp_mono:
  assumes "0 < x" and "x \<le> y"
  shows "ulp_exp x \<le> ulp_exp y"
  using ilog2_mono [OF assms] assms by (simp add: ulp_exp_def)

lemma two_powi_int: "0 \<le> n \<Longrightarrow> (2::rat) powi n = of_int (2 ^ nat n)"
  by (simp add: power_int_nonneg_exp)

lemma RN_scaled:
  assumes "x \<noteq> 0"
  shows "RN x = of_int (round_half_even (x / 2 powi ulp_exp x)) * 2 powi ulp_exp x"
  using assms by (simp add: RN_def)

lemma RN_le_power:
  assumes x: "0 < x" and le: "x \<le> 2 powi e" and e: "ulp_exp x \<le> e"
  shows "RN x \<le> 2 powi e"
proof -
  let ?u = "(2::rat) powi ulp_exp x"
  have u: "0 < ?u" by simp
  have whole: "(2::rat) powi e / ?u = of_int (2 ^ nat (e - ulp_exp x))"
    using e by (simp add: two_powi_int flip: power_int_diff)
  from le u have "x / ?u \<le> 2 powi e / ?u"
    by (simp add: divide_right_mono)
  then have "round_half_even (x / ?u) \<le> round_half_even (of_int (2 ^ nat (e - ulp_exp x)))"
    unfolding whole by (rule rhe_mono)
  then have "round_half_even (x / ?u) \<le> 2 ^ nat (e - ulp_exp x)"
    by (simp only: rhe_of_int)
  then have "(of_int (round_half_even (x / ?u)) :: rat) \<le> of_int (2 ^ nat (e - ulp_exp x))"
    by (simp only: of_int_le_iff)
  then have "of_int (round_half_even (x / ?u)) * ?u \<le> of_int (2 ^ nat (e - ulp_exp x)) * ?u"
    using u by (simp only: mult_le_cancel_right_pos)
  also have "\<dots> = 2 powi e / ?u * ?u" by (simp only: whole)
  also have "\<dots> = 2 powi e" using u by simp
  finally show ?thesis using x by (simp add: RN_scaled)
qed

lemma RN_ge_power:
  assumes x: "0 < x" and le: "2 powi e \<le> x" and e: "ulp_exp x \<le> e"
  shows "2 powi e \<le> RN x"
proof -
  let ?u = "(2::rat) powi ulp_exp x"
  have u: "0 < ?u" by simp
  have whole: "(2::rat) powi e / ?u = of_int (2 ^ nat (e - ulp_exp x))"
    using e by (simp add: two_powi_int flip: power_int_diff)
  from le u have "2 powi e / ?u \<le> x / ?u"
    by (simp add: divide_right_mono)
  then have "round_half_even (of_int (2 ^ nat (e - ulp_exp x))) \<le> round_half_even (x / ?u)"
    unfolding whole by (rule rhe_mono)
  then have "2 ^ nat (e - ulp_exp x) \<le> round_half_even (x / ?u)"
    by (simp only: rhe_of_int)
  then have "(of_int (2 ^ nat (e - ulp_exp x)) :: rat) \<le> of_int (round_half_even (x / ?u))"
    by (simp only: of_int_le_iff)
  then have scaled: "of_int (2 ^ nat (e - ulp_exp x)) * ?u \<le> of_int (round_half_even (x / ?u)) * ?u"
    using u by (simp only: mult_le_cancel_right_pos)
  have "2 powi e = 2 powi e / ?u * ?u" using u by simp
  also have "\<dots> = of_int (2 ^ nat (e - ulp_exp x)) * ?u" by (simp only: whole)
  also note scaled
  finally show ?thesis using x by (simp add: RN_scaled)
qed

lemma RN_mono_pos:
  assumes x: "0 < x" and le: "x \<le> y"
  shows "RN x \<le> RN y"
proof -
  from x le have y: "0 < y" by simp
  from ulp_exp_mono [OF x le] have p: "ulp_exp x \<le> ulp_exp y" .
  show ?thesis
  proof (cases "ulp_exp x = ulp_exp y")
    case True
    let ?u = "(2::rat) powi ulp_exp y"
    have u: "0 < ?u" by simp
    from le u have "x / ?u \<le> y / ?u" by (simp add: divide_right_mono)
    then have "round_half_even (x / ?u) \<le> round_half_even (y / ?u)" by (rule rhe_mono)
    then have "(of_int (round_half_even (x / ?u)) :: rat) \<le> of_int (round_half_even (y / ?u))"
      by (simp only: of_int_le_iff)
    then have "of_int (round_half_even (x / ?u)) * ?u \<le> of_int (round_half_even (y / ?u)) * ?u"
      using u by (simp only: mult_le_cancel_right_pos)
    with x y True show ?thesis by (simp add: RN_scaled)
  next
    case False
    with p have lt: "ulp_exp x < ulp_exp y" by simp
    let ?e = "ilog2 y"
    from x have ax: "\<bar>x\<bar> = x" by simp
    from y have ay: "\<bar>y\<bar> = y" by simp
    have px: "ilog2 x - 52 \<le> ulp_exp x" and px': "- 1074 \<le> ulp_exp x"
      by (simp_all add: ulp_exp_def ax)
    from lt px' have py: "ulp_exp y = ?e - 52"
      by (simp add: ulp_exp_def ay max_def split: if_splits)
    from lt px py have ex: "ilog2 x + 1 \<le> ?e" by simp
    from ilog2_bounds [OF x] have "x < 2 powi (ilog2 x + 1)" by simp
    also have "\<dots> \<le> 2 powi ?e" using ex by (simp add: power_int_increasing)
    finally have xB: "x \<le> 2 powi ?e" by simp
    from lt py have "ulp_exp x \<le> ?e" by simp
    from RN_le_power [OF x xB this] have "RN x \<le> 2 powi ?e" .
    also from ilog2_bounds [OF y] py have "2 powi ?e \<le> RN y"
      by (intro RN_ge_power [OF y]) simp_all
    finally show ?thesis .
  qed
qed

lemma RN_mono: "0 \<le> x \<Longrightarrow> x \<le> y \<Longrightarrow> RN x \<le> RN y"
proof (cases "x = 0")
  case True
  assume "x \<le> y"
  with True have "0 \<le> y" by simp
  with True RN_nonneg [of y] show ?thesis by (simp add: RN_def)
next
  case False
  assume "0 \<le> x" and "x \<le> y"
  with False show ?thesis by (intro RN_mono_pos) simp_all
qed

lemma RN_close:
  assumes "x \<noteq> 0"
  shows "\<bar>RN x - x\<bar> \<le> 2 powi ulp_exp x / 2"
proof -
  let ?u = "(2::rat) powi ulp_exp x"
  have u: "0 < ?u" by simp
  have "RN x - x = (of_int (round_half_even (x / ?u)) - x / ?u) * ?u"
    using assms u by (simp add: RN_scaled algebra_simps)
  then have "\<bar>RN x - x\<bar> = \<bar>of_int (round_half_even (x / ?u)) - x / ?u\<bar> * ?u"
    using u by (simp add: abs_mult)
  also have "\<dots> \<le> 1 / 2 * ?u"
    using u rhe_close [of "x / ?u"] by (simp only: mult_le_cancel_right_pos)
  finally show ?thesis by simp
qed

lemma RN_hundred: "RN 100 = 100"
  by code_simp

lemma ulp_exp_percent:
  assumes "0 < x" and "x \<le> 100"
  shows "ulp_exp x \<le> - 46"
proof -
  from ilog2_bounds [OF assms(1)] assms(2) have "(2::rat) powi ilog2 x < 2 powi 7"
    by simp
  then have "ilog2 x < 7"
    by (rule_tac ccontr) (simp add: not_less power_int_increasing leD del: power_int_numeral)
  with assms(1) show ?thesis by (simp add: ulp_exp_def)
qed

lemma RN_percent_close:
  assumes "0 \<le> x" and "x \<le> 100"
  shows "\<bar>RN x - x\<bar> \<le> 1 / 2 ^ 47"
proof (cases "x = 0")
  case True
  then show ?thesis by (simp add: RN_def)
next
  case False
  with assms have pos: "0 < x" by simp
  from ulp_exp_percent [OF pos assms(2)] have "(2::rat) powi ulp_exp x \<le> 2 powi (- 46)"
    by (rule power_int_increasing) simp
  with RN_close [OF False] have "\<bar>RN x - x\<bar> \<le> 2 powi (- 46) / 2" by simp
  also have "(2::rat) powi (- 46) / 2 = 1 / 2 ^ 47"
    by (simp add: power_int_minus_divide)
  finally show ?thesis .
qed

subsection \<open>formatScore\<close>

text \<open>
  Claim C7, as amended. For every score \<open>s\<close> with \<open>0 \<le> s \<le> 1\<close>, \<open>formatScore(s)\<close> is
  the decimal string of \<open>Math.round(s * 100)\<close> followed by \<open>%\<close>, where \<open>s * 100\<close> is the
  double-precision product: the exact product rounded to the nearest double, at most
  \<open>2^-47\<close> away from it. The percentage is an integer between 0 and 100, at most one
  away from the exact product rounded, and it does not decrease when \<open>s\<close> grows within
  \<open>[0, 1]\<close>.
\<close>

theorem formatScore_percentage:
  "0 \<le> s \<Longrightarrow> s \<le> t \<Longrightarrow> t \<le> 1 \<Longrightarrow>
     formatScore s = show_int (Math_round (fmul s 100)) @ ''%''
   \<and> 0 \<le> Math_round (fmul s 100) \<and> Math_round (fmul s 100) \<le> 100
   \<and> Math_round (fmul s 100) \<le> Math_round (fmul t 100)
   \<and> \<bar>fmul s 100 - 100 * s\<bar> \<le> 1 / 2 ^ 47
   \<and> \<bar>Math_round (fmul s 100) - round (100 * s)\<bar> \<le> 1"
proof -
  assume s0: "0 \<le> s" and st: "s \<le> t" and t1: "t \<le> 1"
  from s0 st t1 have x0: "0 \<le> s * 100" and xy: "s * 100 \<le> t * 100" and x100: "s * 100 \<le> 100"
    by simp_all
  have lo: "0 \<le> RN (s * 100)" using x0 by (rule RN_nonneg)
  have "RN (s * 100) \<le> RN 100" using x0 x100 by (rule RN_mono)
  then have hi: "RN (s * 100) \<le> 100" by (simp only: RN_hundred)
  have mono: "RN (s * 100) \<le> RN (t * 100)" using x0 xy by (rule RN_mono)
  have close: "\<bar>RN (s * 100) - s * 100\<bar> \<le> 1 / 2 ^ 47"
    using x0 x100 by (rule RN_percent_close)
  have p0: "0 \<le> Math_round (fmul s 100)"
    using lo by (simp add: Math_round_def fmul_def)
  have p100: "Math_round (fmul s 100) \<le> 100"
    using hi by (simp add: Math_round_def fmul_def)
  have pm: "Math_round (fmul s 100) \<le> Math_round (fmul t 100)"
    unfolding Math_round_def fmul_def using mono by (intro floor_mono) simp
  have lt1: "\<bar>RN (s * 100) - s * 100\<bar> < 1"
  proof -
    have "(1::rat) / 2 ^ 47 < 1" by simp
    with close show ?thesis by linarith
  qed
  have comm: "100 * s = s * 100" by simp
  have near: "\<bar>Math_round (fmul s 100) - round (100 * s)\<bar> \<le> 1"
    unfolding Math_round_def fmul_def round_def comm using lt1 by linarith
  from close have close': "\<bar>fmul s 100 - 100 * s\<bar> \<le> 1 / 2 ^ 47"
    by (simp add: fmul_def mult.commute)
  show ?thesis
    using p0 p100 pm close' near by (simp add: formatScore_def)
qed

theorem formatScore_percentage_witness:
  "(0::rat) \<le> 1 / 4 \<and> (1::rat) / 4 \<le> 1 / 2 \<and> (1::rat) / 2 \<le> 1
   \<and> formatScore (1 / 4) = ''25%''
   \<and> Math_round (fmul (1 / 4) 100) = 25
   \<and> Math_round (fmul (1 / 2) 100) = 50
   \<and> Math_round (fmul (1 / 4) 100) \<le> Math_round (fmul (1 / 2) 100)"
proof -
  have a: "(0::rat) \<le> 1 / 4" and b: "(1::rat) / 4 \<le> 1 / 2" and c: "(1::rat) / 2 \<le> 1"
    by simp_all
  have m1: "Math_round (fmul (1 / 4) 100) = 25" and m2: "Math_round (fmul (1 / 2) 100) = 50"
    by code_simp+
  have str: "show_int 25 = ''25''"
    by code_simp
  from formatScore_percentage [OF a b c] m1 m2 str show ?thesis
    by simp
qed

text \<open>
  Claim C7 as stated fails. The double nearest to 0.615 is a little below it, so a
  hundred times it is below 61.5 and rounds to 61; the double product is 61.5 exactly,
  \<open>Math.round\<close> takes it up, and \<open>formatScore\<close> gives \<open>62%\<close>.
\<close>

theorem formatScore_counterexample:
  "(0::rat) \<le> 2769713770832855 / 4503599627370496
   \<and> (2769713770832855::rat) / 4503599627370496 \<le> 1
   \<and> RN (615 / 1000) = 2769713770832855 / 4503599627370496
   \<and> formatScore (2769713770832855 / 4503599627370496) = ''62%''
   \<and> show_int (round (100 * (2769713770832855 / 4503599627370496 :: rat))) @ ''%'' = ''61%''"
  by code_simp

end
